theory Spec2Isabelle
  imports Complex_Main
begin

section \<open>Data model\<close>

text \<open>
  The background script keeps one record per tab (\<^verbatim>\<open>tabMetadata\<close>, keyed by
  \<^verbatim>\<open>String(tab.id)\<close>) and a list of closed items (\<^verbatim>\<open>closedItems\<close>).
  Timestamps are JavaScript numbers holding integral milliseconds, modelled as \<open>int\<close>;
  the only falsy timestamp is \<open>0\<close>. Record strings are plain strings, whose only falsy
  value is the empty string. Tab ids are integers and \<^verbatim>\<open>String\<close> is injective on them,
  so the object keys are modelled by the ids themselves.
\<close>

record TabRecord =
  openedAt :: int
  lastActiveAt :: int
  firstUrl :: string
  currentUrl :: string
  title :: string

text \<open>Fields \<^verbatim>\<open>openedAt, closedAt, url, title\<close> of a closed item.\<close>

record ClosedItem =
  item_openedAt :: int
  closedAt :: int
  item_url :: string
  item_title :: string

text \<open>
  The fields of a \<^verbatim>\<open>chrome.tabs.Tab\<close> that the script reads: \<^verbatim>\<open>id, url, title, pinned\<close>.
  \<^verbatim>\<open>url\<close> and \<^verbatim>\<open>title\<close> may be \<^verbatim>\<open>undefined\<close>, which is \<open>None\<close>.
\<close>

record tab =
  tab_id :: int
  tab_url :: "string option"
  tab_title :: "string option"
  pinned :: bool

text \<open>The fields \<^verbatim>\<open>url, title, status\<close> of the \<^verbatim>\<open>changeInfo\<close> of \<^verbatim>\<open>tabs.onUpdated\<close>.\<close>

record changeInfo =
  change_url :: "string option"
  change_title :: "string option"
  change_status :: "string option"

text \<open>JavaScript truthiness of an optional string, and \<^verbatim>\<open>v || d\<close>.\<close>

definition truthy :: "string option \<Rightarrow> bool" where
  "truthy v = (case v of None \<Rightarrow> False | Some s \<Rightarrow> s \<noteq> [])"

definition orStr :: "string option \<Rightarrow> string \<Rightarrow> string" where
  "orStr v d = (case v of None \<Rightarrow> d | Some s \<Rightarrow> if s = [] then d else s)"

definition STALE_THRESHOLD_MS :: int where
  "STALE_THRESHOLD_MS = 24 * 60 * 60 * 1000"

definition ALARM_NAME :: string where
  "ALARM_NAME = ''check-stale-tabs''"

section \<open>The platform\<close>

text \<open>
  Every \<^verbatim>\<open>chrome.*\<close> call and the \<^verbatim>\<open>fetch\<close> returns a promise that may reject. The
  world records each call that was issued, in order, whether or not it succeeded.
\<close>

datatype key = TAB_METADATA_KEY | CLOSED_ITEMS_KEY | INACTIVITY_THRESHOLD_KEY

datatype call =
    TabsQuery
  | TabsGet int
  | TabsRemove int
  | StorageGet key
  | StorageSet key
  | AlarmsGet
  | AlarmsCreate
  | Fetch ClosedItem
  | SendMessage ClosedItem
  | SettingsStatus bool

datatype error = Rejected call

text \<open>
  What the script cannot decide itself is a parameter: \<open>urlProtocol\<close> is
  \<^verbatim>\<open>new URL(url).protocol\<close> (\<open>None\<close> when the constructor throws), \<open>clock n\<close> is what
  the \<open>n\<close>-th call of \<^verbatim>\<open>Date.now()\<close> returns, and \<open>rejects h c\<close> tells whether the
  platform rejects call \<open>c\<close> issued after the calls \<open>h\<close>.
\<close>

record platform =
  urlProtocol :: "string \<Rightarrow> string option"
  clock :: "nat \<Rightarrow> int"
  rejects :: "call list \<Rightarrow> call \<Rightarrow> bool"

text \<open>
  The browser's open tabs, the three keys of \<^verbatim>\<open>chrome.storage.local\<close> (\<open>None\<close> when a
  key was never written), whether the alarm \<^verbatim>\<open>check-stale-tabs\<close> is scheduled, the
  number of clock readings so far and the calls issued so far.
\<close>

record world =
  openTabs :: "tab list"
  tabMetadata :: "(int \<rightharpoonup> TabRecord) option"
  closedItems :: "ClosedItem list option"
  inactivityThresholdHours :: "rat option"
  alarm :: bool
  ticks :: nat
  trace :: "call list"

type_synonym 'a prog = "world \<Rightarrow> (error + 'a) \<times> world"

text \<open>Returning a value; \<^verbatim>\<open>await m\<close> followed by the rest of the function.\<close>

definition ret :: "'a \<Rightarrow> 'a prog" where
  "ret x = (\<lambda>w. (Inr x, w))"

definition await :: "'a prog \<Rightarrow> ('a \<Rightarrow> 'b prog) \<Rightarrow> 'b prog" where
  "await m f = (\<lambda>w. case m w of (Inl e, w') \<Rightarrow> (Inl e, w') | (Inr x, w') \<Rightarrow> f x w')"

text \<open>\<^verbatim>\<open>try { await m } catch (e) {}\<close>, and \<^verbatim>\<open>m.catch(() => {})\<close>.\<close>

definition swallow :: "'a prog \<Rightarrow> unit prog" where
  "swallow m = (\<lambda>w. case m w of (r, w') \<Rightarrow> (Inr (), w'))"

text \<open>
  \<^verbatim>\<open>await Promise.all([m1, m2])\<close>: both calls are issued before either is awaited, and
  the whole rejects when one of them does.
\<close>

definition promiseAll2 :: "'a prog \<Rightarrow> 'b prog \<Rightarrow> ('a \<times> 'b) prog" where
  "promiseAll2 m1 m2 = (\<lambda>w. case m1 w of (r1, w1) \<Rightarrow> (case m2 w1 of (r2, w2) \<Rightarrow>
     ((case r1 of Inl e \<Rightarrow> Inl e
       | Inr x \<Rightarrow> (case r2 of Inl e \<Rightarrow> Inl e | Inr y \<Rightarrow> Inr (x, y))), w2)))"

definition platformCall :: "platform \<Rightarrow> call \<Rightarrow> (world \<Rightarrow> 'a) \<Rightarrow> (world \<Rightarrow> world) \<Rightarrow> 'a prog" where
  "platformCall p c result effect = (\<lambda>w.
     if rejects p (trace w) c then (Inl (Rejected c), w\<lparr>trace := trace w @ [c]\<rparr>)
     else (Inr (result w), effect (w\<lparr>trace := trace w @ [c]\<rparr>)))"

definition dateNow :: "platform \<Rightarrow> int prog" where
  "dateNow p = (\<lambda>w. (Inr (clock p (ticks w)), w\<lparr>ticks := Suc (ticks w)\<rparr>))"

definition tabsQuery :: "platform \<Rightarrow> tab list prog" where
  "tabsQuery p = platformCall p TabsQuery openTabs id"

text \<open>\<^verbatim>\<open>chrome.tabs.get\<close> and \<^verbatim>\<open>chrome.tabs.remove\<close> also reject when no such tab is open.\<close>

definition tabsGet :: "platform \<Rightarrow> int \<Rightarrow> tab prog" where
  "tabsGet p i = (\<lambda>w. case find (\<lambda>t. tab_id t = i) (openTabs w) of
     None \<Rightarrow> (Inl (Rejected (TabsGet i)), w\<lparr>trace := trace w @ [TabsGet i]\<rparr>)
   | Some t \<Rightarrow> platformCall p (TabsGet i) (\<lambda>_. t) id w)"

definition tabsRemove :: "platform \<Rightarrow> int \<Rightarrow> unit prog" where
  "tabsRemove p i = (\<lambda>w. case find (\<lambda>t. tab_id t = i) (openTabs w) of
     None \<Rightarrow> (Inl (Rejected (TabsRemove i)), w\<lparr>trace := trace w @ [TabsRemove i]\<rparr>)
   | Some t \<Rightarrow> platformCall p (TabsRemove i) (\<lambda>_. ())
       (\<lambda>v. v\<lparr>openTabs := filter (\<lambda>t. tab_id t \<noteq> i) (openTabs v)\<rparr>) w)"

definition alarmsGet :: "platform \<Rightarrow> bool prog" where
  "alarmsGet p = platformCall p AlarmsGet alarm id"

definition alarmsCreate :: "platform \<Rightarrow> unit prog" where
  "alarmsCreate p = platformCall p AlarmsCreate (\<lambda>_. ()) (\<lambda>v. v\<lparr>alarm := True\<rparr>)"

definition fetch :: "platform \<Rightarrow> ClosedItem \<Rightarrow> unit prog" where
  "fetch p item = platformCall p (Fetch item) (\<lambda>_. ()) id"

definition sendMessage :: "platform \<Rightarrow> ClosedItem \<Rightarrow> unit prog" where
  "sendMessage p item = platformCall p (SendMessage item) (\<lambda>_. ()) id"

section \<open>The background script\<close>

text \<open>\<^verbatim>\<open>result[TAB_METADATA_KEY] || {}\<close> and \<^verbatim>\<open>result[CLOSED_ITEMS_KEY] || []\<close>.\<close>

definition storedMetadata :: "world \<Rightarrow> (int \<rightharpoonup> TabRecord)" where
  "storedMetadata w = (case tabMetadata w of None \<Rightarrow> Map.empty | Some m \<Rightarrow> m)"

definition storedItems :: "world \<Rightarrow> ClosedItem list" where
  "storedItems w = (case closedItems w of None \<Rightarrow> [] | Some xs \<Rightarrow> xs)"

definition loadTabMetadata :: "platform \<Rightarrow> (int \<rightharpoonup> TabRecord) prog" where
  "loadTabMetadata p = platformCall p (StorageGet TAB_METADATA_KEY) storedMetadata id"

definition saveTabMetadata :: "platform \<Rightarrow> (int \<rightharpoonup> TabRecord) \<Rightarrow> unit prog" where
  "saveTabMetadata p m = platformCall p (StorageSet TAB_METADATA_KEY) (\<lambda>_. ())
     (\<lambda>v. v\<lparr>tabMetadata := Some m\<rparr>)"

definition loadClosedItems :: "platform \<Rightarrow> ClosedItem list prog" where
  "loadClosedItems p = platformCall p (StorageGet CLOSED_ITEMS_KEY) storedItems id"

definition saveClosedItems :: "platform \<Rightarrow> ClosedItem list \<Rightarrow> unit prog" where
  "saveClosedItems p items = platformCall p (StorageSet CLOSED_ITEMS_KEY) (\<lambda>_. ())
     (\<lambda>v. v\<lparr>closedItems := Some items\<rparr>)"

definition isSupportedHttpUrl :: "platform \<Rightarrow> string option \<Rightarrow> bool" where
  "isSupportedHttpUrl p url =
     (if \<not> truthy url then False
      else (case urlProtocol p (orStr url []) of
              None \<Rightarrow> False
            | Some protocol \<Rightarrow> protocol = ''http:'' \<or> protocol = ''https:''))"

definition ensureAlarm :: "platform \<Rightarrow> unit prog" where
  "ensureAlarm p = await (alarmsGet p) (\<lambda>existing.
     if \<not> existing then alarmsCreate p else ret ())"

text \<open>
  The object literal \<^verbatim>\<open>{openedAt: now, lastActiveAt: now, firstUrl: tab.url || "",
  currentUrl: tab.url || "", title: ...}\<close> that five places of the script build; the
  title expression is the caller's.
\<close>

definition freshRecord :: "int \<Rightarrow> tab \<Rightarrow> string \<Rightarrow> TabRecord" where
  "freshRecord now t ttl =
     \<lparr>openedAt = now, lastActiveAt = now, firstUrl = orStr (tab_url t) [],
      currentUrl = orStr (tab_url t) [], title = ttl\<rparr>"

fun initLoop :: "platform \<Rightarrow> int \<Rightarrow> tab list \<Rightarrow> (int \<rightharpoonup> TabRecord) \<times> bool
    \<Rightarrow> (int \<rightharpoonup> TabRecord) \<times> bool" where
  "initLoop p now [] acc = acc"
| "initLoop p now (t # ts) (metadata, changed) =
     (if \<not> isSupportedHttpUrl p (tab_url t) then initLoop p now ts (metadata, changed)
      else if metadata (tab_id t) = None
        then initLoop p now ts
               (metadata(tab_id t \<mapsto> freshRecord now t (orStr (tab_title t) [])), True)
      else initLoop p now ts (metadata, changed))"

definition initialiseExistingTabs :: "platform \<Rightarrow> unit prog" where
  "initialiseExistingTabs p =
     await (promiseAll2 (tabsQuery p) (loadTabMetadata p)) (\<lambda>(tabs, metadata).
     await (dateNow p) (\<lambda>now.
       case initLoop p now tabs (metadata, False) of (metadata', changed) \<Rightarrow>
         if changed then saveTabMetadata p metadata' else ret ()))"

definition handleTabCreated :: "platform \<Rightarrow> tab \<Rightarrow> unit prog" where
  "handleTabCreated p t =
     (if \<not> isSupportedHttpUrl p (tab_url t) then ret ()
      else await (loadTabMetadata p) (\<lambda>metadata.
           await (dateNow p) (\<lambda>now.
             saveTabMetadata p
               (metadata(tab_id t \<mapsto> freshRecord now t (orStr (tab_title t) []))))))"

text \<open>
  The branch of \<^verbatim>\<open>handleTabUpdated\<close> for a known tab: \<^verbatim>\<open>currentUrl\<close> follows the tab only
  to a supported URL, \<^verbatim>\<open>title\<close> follows the tab's or the change's title when one of them
  is truthy.
\<close>

definition updateEntry :: "platform \<Rightarrow> changeInfo \<Rightarrow> tab \<Rightarrow> TabRecord \<Rightarrow> TabRecord" where
  "updateEntry p ci t entry =
     (let entry1 = (if isSupportedHttpUrl p (tab_url t)
                    then entry\<lparr>currentUrl := orStr (tab_url t) (currentUrl entry)\<rparr>
                    else entry);
          entry2 = (if truthy (tab_title t) \<or> truthy (change_title ci)
                    then entry1\<lparr>title :=
                           orStr (tab_title t) (orStr (change_title ci) (title entry1))\<rparr>
                    else entry1)
      in entry2)"

definition handleTabUpdated :: "platform \<Rightarrow> int \<Rightarrow> changeInfo \<Rightarrow> tab \<Rightarrow> unit prog" where
  "handleTabUpdated p tabId ci t =
     (if \<not> truthy (change_url ci) \<and> \<not> truthy (change_title ci)
          \<and> change_status ci \<noteq> Some ''complete''
      then ret ()
      else await (loadTabMetadata p) (\<lambda>metadata.
        case metadata tabId of
          None \<Rightarrow>
            if \<not> isSupportedHttpUrl p (tab_url t) then ret ()
            else await (dateNow p) (\<lambda>now.
              saveTabMetadata p
                (metadata(tabId \<mapsto>
                   freshRecord now t (orStr (tab_title t) (orStr (change_title ci) [])))))
        | Some entry \<Rightarrow>
            saveTabMetadata p (metadata(tabId \<mapsto> updateEntry p ci t entry))))"

definition handleTabRemoved :: "platform \<Rightarrow> int \<Rightarrow> unit prog" where
  "handleTabRemoved p tabId =
     await (loadTabMetadata p) (\<lambda>metadata.
       if metadata tabId \<noteq> None then saveTabMetadata p (metadata(tabId := None))
       else ret ())"

text \<open>The listener of \<^verbatim>\<open>chrome.tabs.onActivated\<close>; both early returns skip the save.\<close>

definition handleTabActivated :: "platform \<Rightarrow> int \<Rightarrow> unit prog" where
  "handleTabActivated p tabId =
     await (loadTabMetadata p) (\<lambda>metadata.
     await (dateNow p) (\<lambda>now.
       case metadata tabId of
         None \<Rightarrow> (\<lambda>w. case tabsGet p tabId w of
             (Inl e, w') \<Rightarrow> (Inr (), w')
           | (Inr t, w') \<Rightarrow>
               if \<not> isSupportedHttpUrl p (tab_url t) then (Inr (), w')
               else saveTabMetadata p
                      (metadata(tabId \<mapsto> freshRecord now t (orStr (tab_title t) []))) w')
       | Some entry \<Rightarrow>
           saveTabMetadata p (metadata(tabId \<mapsto> entry\<lparr>lastActiveAt := now\<rparr>))))"

text \<open>
  Step 1 of \<^verbatim>\<open>closeAndLogTab\<close>: \<^verbatim>\<open>url: currentUrl || firstUrl\<close> and
  \<^verbatim>\<open>title: title || currentUrl || firstUrl\<close>.
\<close>

definition buildClosedItem :: "TabRecord \<Rightarrow> int \<Rightarrow> ClosedItem" where
  "buildClosedItem metaEntry now =
     \<lparr>item_openedAt = openedAt metaEntry,
      closedAt = now,
      item_url = (if currentUrl metaEntry \<noteq> [] then currentUrl metaEntry
                  else firstUrl metaEntry),
      item_title = (if title metaEntry \<noteq> [] then title metaEntry
                    else if currentUrl metaEntry \<noteq> [] then currentUrl metaEntry
                    else firstUrl metaEntry)\<rparr>"

definition closeAndLogTab :: "platform \<Rightarrow> tab \<Rightarrow> TabRecord option \<Rightarrow> unit prog" where
  "closeAndLogTab p t metaEntry =
     (case metaEntry of
        None \<Rightarrow> ret ()
      | Some e \<Rightarrow>
          await (dateNow p) (\<lambda>now.
          let closedItem = buildClosedItem e now in
          await (swallow (tabsRemove p (tab_id t))) (\<lambda>_.
          await (loadClosedItems p) (\<lambda>items.
          await (saveClosedItems p (items @ [closedItem])) (\<lambda>_.
          await (swallow (fetch p closedItem)) (\<lambda>_.
          swallow (sendMessage p closedItem)))))))"

text \<open>\<^verbatim>\<open>entry.lastActiveAt || entry.openedAt || now\<close>: a timestamp \<open>0\<close> is falsy.\<close>

definition effectiveLastActive :: "TabRecord \<Rightarrow> int \<Rightarrow> int" where
  "effectiveLastActive entry now =
     (if lastActiveAt entry \<noteq> 0 then lastActiveAt entry
      else if openedAt entry \<noteq> 0 then openedAt entry
      else now)"

text \<open>The \<^verbatim>\<open>for (const tab of tabs)\<close> loop of \<^verbatim>\<open>checkForStaleTabs\<close>.\<close>

fun scanLoop :: "platform \<Rightarrow> int \<Rightarrow> tab list \<Rightarrow> (int \<rightharpoonup> TabRecord)
    \<Rightarrow> (int \<rightharpoonup> TabRecord) prog" where
  "scanLoop p now [] metadata = ret metadata"
| "scanLoop p now (t # ts) metadata =
     (if pinned t then scanLoop p now ts metadata
      else if \<not> isSupportedHttpUrl p (tab_url t) then scanLoop p now ts metadata
      else
        let entry = (case metadata (tab_id t) of
                       None \<Rightarrow> freshRecord now t (orStr (tab_title t) [])
                     | Some e \<Rightarrow> e);
            metadata1 = (case metadata (tab_id t) of
                           None \<Rightarrow> metadata(tab_id t \<mapsto> entry)
                         | Some e \<Rightarrow> metadata);
            inactiveDuration = now - effectiveLastActive entry now
        in if inactiveDuration \<ge> STALE_THRESHOLD_MS
           then await (closeAndLogTab p t (Some entry)) (\<lambda>_.
                  scanLoop p now ts (metadata1(tab_id t := None)))
           else scanLoop p now ts metadata1)"

definition checkForStaleTabs :: "platform \<Rightarrow> unit prog" where
  "checkForStaleTabs p =
     await (promiseAll2 (tabsQuery p) (loadTabMetadata p)) (\<lambda>(tabs, metadata).
     await (dateNow p) (\<lambda>now.
     await (scanLoop p now tabs metadata) (\<lambda>metadata'.
       saveTabMetadata p metadata')))"

text \<open>
  The listeners registered at the end of the script. A handler's promise is not awaited
  by the event dispatcher, so a rejection ends the handler and goes nowhere else.
  \<open>Browser ts\<close> is the environment: the user opens, closes, pins or navigates tabs, after
  which the open tabs are \<open>ts\<close>. Each handler runs to its end before the next event is
  taken; two handlers interleaved at their \<^verbatim>\<open>await\<close> points are not modelled.
\<close>

definition initializer :: "platform \<Rightarrow> unit prog" where
  "initializer p = await (ensureAlarm p) (\<lambda>_. initialiseExistingTabs p)"

datatype event =
    Installed
  | Startup
  | Alarm string
  | Created tab
  | Activated int
  | Updated int changeInfo tab
  | Removed int
  | Browser "tab list"

definition dispatch :: "platform \<Rightarrow> event \<Rightarrow> world \<Rightarrow> world" where
  "dispatch p ev w =
     (case ev of
        Installed \<Rightarrow> snd (initializer p w)
      | Startup \<Rightarrow> snd (initializer p w)
      | Alarm name \<Rightarrow> if name = ALARM_NAME then snd (checkForStaleTabs p w) else w
      | Created t \<Rightarrow> snd (handleTabCreated p t w)
      | Activated tabId \<Rightarrow> snd (handleTabActivated p tabId w)
      | Updated tabId ci t \<Rightarrow> snd (handleTabUpdated p tabId ci t w)
      | Removed tabId \<Rightarrow> snd (handleTabRemoved p tabId w)
      | Browser ts \<Rightarrow> w\<lparr>openTabs := ts\<rparr>)"

fun run :: "platform \<Rightarrow> event list \<Rightarrow> world \<Rightarrow> world" where
  "run p [] w = w"
| "run p (ev # evs) w = run p evs (dispatch p ev w)"

section \<open>The options page\<close>

text \<open>
  \<^verbatim>\<open>saveInactivityThreshold\<close> of \<^verbatim>\<open>options.js\<close>. Its argument is
  \<^verbatim>\<open>Number(inactivitySelectEl.value)\<close>, \<open>None\<close> for \<^verbatim>\<open>NaN\<close>. The status line of the page
  is recorded as a call that cannot fail; the activity log of the page is left out.
\<close>

definition setSettingsStatus :: "bool \<Rightarrow> unit prog" where
  "setSettingsStatus ok = (\<lambda>w. (Inr (), w\<lparr>trace := trace w @ [SettingsStatus ok]\<rparr>))"

definition saveInactivityThreshold :: "platform \<Rightarrow> rat option \<Rightarrow> unit prog" where
  "saveInactivityThreshold p hours =
     (case hours of
        None \<Rightarrow> setSettingsStatus False
      | Some h \<Rightarrow>
          if h = 0 \<or> h \<le> 0 then setSettingsStatus False
          else (\<lambda>w. case platformCall p (StorageSet INACTIVITY_THRESHOLD_KEY) (\<lambda>_. ())
                          (\<lambda>v. v\<lparr>inactivityThresholdHours := Some h\<rparr>) w of
                  (Inl e, w') \<Rightarrow> setSettingsStatus False w'
                | (Inr u, w') \<Rightarrow> setSettingsStatus True w'))"

text \<open>
  \<^verbatim>\<open>escapeMarkdownLinkText\<close>: \<^verbatim>\<open>(text || "").replace(/\[/g, "\\[").replace(/\]/g, "\\]")\<close>,
  two global replacements of one character by two, one after the other.
\<close>

definition backslash :: char where
  "backslash = CHR 0x5C"

definition replaceAll :: "char \<Rightarrow> string \<Rightarrow> string \<Rightarrow> string" where
  "replaceAll c r s = concat (map (\<lambda>x. if x = c then r else [x]) s)"

definition escapeMarkdownLinkText :: "string option \<Rightarrow> string" where
  "escapeMarkdownLinkText text =
     replaceAll (CHR '']'') [backslash, CHR '']'']
       (replaceAll (CHR ''['') [backslash, CHR ''[''] (orStr text []))"

text \<open>
  \<^verbatim>\<open>formatDateISO\<close> and \<^verbatim>\<open>formatTime\<close>. A \<^verbatim>\<open>Date\<close> is valid within 8.64e15 milliseconds
  of the epoch. For an invalid date \<^verbatim>\<open>toISOString()\<close> throws a \<^verbatim>\<open>RangeError\<close> and
  \<^verbatim>\<open>toTimeString()\<close> returns \<^verbatim>\<open>Invalid Date\<close>; for a valid one the two renderings (the
  second in the local time zone) are parameters.
\<close>

datatype exn = RangeError

definition validDate :: "int \<Rightarrow> bool" where
  "validDate dateMs = (- 8640000000000000 \<le> dateMs \<and> dateMs \<le> 8640000000000000)"

definition formatDateISO :: "(int \<Rightarrow> string) \<Rightarrow> int \<Rightarrow> exn + string" where
  "formatDateISO toISOString dateMs =
     (if validDate dateMs then Inr (take 10 (toISOString dateMs)) else Inl RangeError)"

definition formatTime :: "(int \<Rightarrow> string) \<Rightarrow> int \<Rightarrow> string" where
  "formatTime toTimeString dateMs =
     take 5 (if validDate dateMs then toTimeString dateMs else ''Invalid Date'')"

text \<open>
  \<^verbatim>\<open>groupByDate\<close> fills a \<^verbatim>\<open>Map\<close>, which keeps its keys in insertion order: an
  association list. \<open>clk\<close> and the counter are the readings of \<^verbatim>\<open>Date.now()\<close>, taken when
  \<^verbatim>\<open>closedAt\<close> is falsy. The exception of \<^verbatim>\<open>formatDateISO\<close> ends the loop.
\<close>

fun groupByDate :: "(int \<Rightarrow> string) \<Rightarrow> (nat \<Rightarrow> int) \<Rightarrow> ClosedItem list \<Rightarrow> nat
    \<Rightarrow> (string \<times> ClosedItem list) list
    \<Rightarrow> exn + ((string \<times> ClosedItem list) list \<times> nat)" where
  "groupByDate toISOString clk [] n groups = Inr (groups, n)"
| "groupByDate toISOString clk (item # items) n groups =
     (let ms = (if closedAt item \<noteq> 0 then closedAt item else clk n);
          n1 = (if closedAt item \<noteq> 0 then n else Suc n)
      in case formatDateISO toISOString ms of
           Inl e \<Rightarrow> Inl e
         | Inr day \<Rightarrow>
             let groups1 = (if map_of groups day = None then groups @ [(day, [])] else groups);
                 groups2 = map (\<lambda>(d, xs). if d = day then (d, xs @ [item]) else (d, xs)) groups1
             in groupByDate toISOString clk items n1 groups2)"

text \<open>The two lines and the empty line that the inner loop pushes for one item.\<close>

definition itemTitle :: "ClosedItem \<Rightarrow> string" where
  "itemTitle item =
     escapeMarkdownLinkText
       (Some (if item_title item \<noteq> [] then item_title item
              else if item_url item \<noteq> [] then item_url item
              else ''Untitled''))"

definition itemLine :: "ClosedItem \<Rightarrow> string" where
  "itemLine item = ''- [ ] ['' @ itemTitle item @ '']('' @ item_url item @ '')  ''"

fun itemSections :: "(int \<Rightarrow> string) \<Rightarrow> (nat \<Rightarrow> int) \<Rightarrow> ClosedItem list \<Rightarrow> nat
    \<Rightarrow> string list \<times> nat" where
  "itemSections toTimeString clk [] n = ([], n)"
| "itemSections toTimeString clk (item # items) n =
     (let ms = (if closedAt item \<noteq> 0 then closedAt item else clk n);
          n1 = (if closedAt item \<noteq> 0 then n else Suc n);
          closedTime = formatTime toTimeString ms
      in case itemSections toTimeString clk items n1 of (rest, n2) \<Rightarrow>
           ([itemLine item, ''  Closed at: '' @ closedTime, []] @ rest, n2))"

fun daySections :: "(int \<Rightarrow> string) \<Rightarrow> (nat \<Rightarrow> int) \<Rightarrow> (string \<times> ClosedItem list) list
    \<Rightarrow> nat \<Rightarrow> string list" where
  "daySections toTimeString clk [] n = []"
| "daySections toTimeString clk ((day, dayItems) # groups) n =
     (case itemSections toTimeString clk dayItems n of (ls, n1) \<Rightarrow>
        [''## '' @ day, []] @ ls @ daySections toTimeString clk groups n1)"

text \<open>\<^verbatim>\<open>sections.join("\n")\<close>.\<close>

fun joinLines :: "string list \<Rightarrow> string" where
  "joinLines [] = []"
| "joinLines [l] = l"
| "joinLines (l # m # ls) = l @ [CHR 0x0A] @ joinLines (m # ls)"

definition buildMarkdownFromItems :: "(int \<Rightarrow> string) \<Rightarrow> (int \<Rightarrow> string) \<Rightarrow> (nat \<Rightarrow> int)
    \<Rightarrow> ClosedItem list \<Rightarrow> exn + string" where
  "buildMarkdownFromItems toISOString toTimeString clk items =
     (if items = [] then Inr []
      else case groupByDate toISOString clk items 0 [] of
             Inl e \<Rightarrow> Inl e
           | Inr (grouped, n) \<Rightarrow> Inr (joinLines (daySections toTimeString clk grouped n)))"

section \<open>Vocabulary of the properties\<close>

text \<open>The calls a run issued: those of the final trace beyond the initial one.\<close>

definition newCalls :: "world \<Rightarrow> world \<Rightarrow> call list" where
  "newCalls w w' = drop (length (trace w)) (trace w')"

definition isTabsRemove :: "call \<Rightarrow> bool" where
  "isTabsRemove c = (case c of TabsRemove i \<Rightarrow> True | _ \<Rightarrow> False)"

text \<open>
  The record the sweep works with for a tab: the stored one, or the one it synthesizes.
\<close>

definition scanEntry :: "int \<Rightarrow> (int \<rightharpoonup> TabRecord) \<Rightarrow> tab \<Rightarrow> TabRecord" where
  "scanEntry now m t = (case m (tab_id t) of
     None \<Rightarrow> freshRecord now t (orStr (tab_title t) []) | Some e \<Rightarrow> e)"

text \<open>The ids of the unpinned tabs of a snapshot.\<close>

definition unpinnedIds :: "tab list \<Rightarrow> int set" where
  "unpinnedIds ts = tab_id ` {t \<in> set ts. \<not> pinned t}"

section \<open>Concrete inputs\<close>

text \<open>
  The platforms and worlds at which the theorems below are instantiated. \<open>schemeOf\<close>
  stands in for the URL parser there: the protocol is the text up to the first colon.
\<close>

definition schemeOf :: "string \<Rightarrow> string option" where
  "schemeOf u = (if CHR '':'' \<in> set u then Some (takeWhile (\<lambda>c. c \<noteq> CHR '':'') u @ '':'') else None)"

definition tabX :: tab where
  "tabX = \<lparr>tab_id = 1, tab_url = Some ''http://x'', tab_title = Some ''x'', pinned = False\<rparr>"

definition recordX :: "int \<Rightarrow> TabRecord" where
  "recordX ts = \<lparr>openedAt = ts, lastActiveAt = ts, firstUrl = ''http://x'',
                 currentUrl = ''http://x'', title = ''x''\<rparr>"

definition startWorld :: "tab list \<Rightarrow> world" where
  "startWorld ts = \<lparr>openTabs = ts, tabMetadata = None, closedItems = None,
                     inactivityThresholdHours = None, alarm = False, ticks = 0, trace = []\<rparr>"

definition testPlatform :: "(nat \<Rightarrow> int) \<Rightarrow> (call \<Rightarrow> bool) \<Rightarrow> platform" where
  "testPlatform clk rej = \<lparr>urlProtocol = schemeOf, clock = clk, rejects = (\<lambda>h. rej)\<rparr>"

definition steadyPlatform :: "int \<Rightarrow> platform" where
  "steadyPlatform now = testPlatform (\<lambda>n. now) (\<lambda>c. False)"

definition flakyPlatform :: platform where
  "flakyPlatform = testPlatform (\<lambda>n. 5)
     (\<lambda>c. case c of TabsRemove i \<Rightarrow> True | Fetch x \<Rightarrow> True | SendMessage x \<Rightarrow> True | _ \<Rightarrow> False)"

definition noQueuePlatform :: platform where
  "noQueuePlatform = testPlatform (\<lambda>n. 5) (\<lambda>c. c = StorageGet CLOSED_ITEMS_KEY)"

definition pushDownPlatform :: platform where
  "pushDownPlatform = testPlatform (\<lambda>n. 5) (\<lambda>c. case c of Fetch x \<Rightarrow> True | _ \<Rightarrow> False)"

definition pinnedTab :: tab where
  "pinnedTab = \<lparr>tab_id = 7, tab_url = Some ''https://pinned.example/'',
                tab_title = Some ''Mail'', pinned = True\<rparr>"

definition pinnedRecord :: TabRecord where
  "pinnedRecord = \<lparr>openedAt = 1000, lastActiveAt = 1000, firstUrl = ''https://pinned.example/'',
                   currentUrl = ''https://pinned.example/'', title = ''Mail''\<rparr>"

definition pinnedWorld :: world where
  "pinnedWorld = (startWorld [pinnedTab, tabX])
     \<lparr>tabMetadata := Some [7 \<mapsto> pinnedRecord, 1 \<mapsto> recordX 1000]\<rparr>"

section \<open>Vocabulary of the scan\<close>

text \<open>No read or write of \<^verbatim>\<open>chrome.storage.local\<close> is rejected.\<close>

definition storageReliable :: "platform \<Rightarrow> bool" where
  "storageReliable p = (\<forall>h k. \<not> rejects p h (StorageGet k) \<and> \<not> rejects p h (StorageSet k))"

text \<open>
  The tabs of a snapshot that the sweep evicts, each with its record: unpinned, with a
  supported URL, with a record in the map, and inactive for at least the threshold.
\<close>

fun staleTabs :: "platform \<Rightarrow> int \<Rightarrow> (int \<rightharpoonup> TabRecord) \<Rightarrow> tab list \<Rightarrow> (tab \<times> TabRecord) list" where
  "staleTabs p now m [] = []"
| "staleTabs p now m (t # ts) =
     (case m (tab_id t) of
        None \<Rightarrow> staleTabs p now m ts
      | Some e \<Rightarrow>
          if \<not> pinned t \<and> isSupportedHttpUrl p (tab_url t)
             \<and> now - effectiveLastActive e now \<ge> STALE_THRESHOLD_MS
          then (t, e) # staleTabs p now m ts
          else staleTabs p now m ts)"

text \<open>
  What a run of the loop over the snapshot \<open>ts\<close>, started with the map \<open>m\<close> in the world \<open>w\<close>,
  has done when it ends in \<open>res\<close>: it returns a map without the records of the evicted
  tabs, equal to \<open>m\<close> outside the snapshot and on every record of a tab that was not evicted;
  it has appended one item per evicted tab, built from the tab's record and the reading of
  the clock taken for that tab; of the calls it has issued, the \<^verbatim>\<open>chrome.tabs.remove\<close> ones
  are those of the evicted tabs, one each, in order.
\<close>

definition scanPost :: "platform \<Rightarrow> int \<Rightarrow> tab list \<Rightarrow> (int \<rightharpoonup> TabRecord) \<Rightarrow> world
    \<Rightarrow> (error + (int \<rightharpoonup> TabRecord)) \<times> world \<Rightarrow> bool" where
  "scanPost p now ts m w res =
     (case res of (r, w') \<Rightarrow>
        (\<exists>m'. r = Inr m'
           \<and> (\<forall>(t, e) \<in> set (staleTabs p now m ts). m' (tab_id t) = None)
           \<and> (\<forall>i. i \<notin> tab_id ` set ts \<longrightarrow> m' i = m i)
           \<and> (\<forall>i e. m i = Some e \<longrightarrow> i \<notin> (\<lambda>(t, e). tab_id t) ` set (staleTabs p now m ts)
                  \<longrightarrow> m' i = Some e))
        \<and> storedItems w' = storedItems w
             @ map (\<lambda>(k, (t, e)). buildClosedItem e (clock p k))
                 (enumerate (ticks w) (staleTabs p now m ts))
        \<and> (\<exists>xs. trace w' = trace w @ xs
              \<and> filter isTabsRemove xs
                  = map (\<lambda>(t, e). TabsRemove (tab_id t)) (staleTabs p now m ts)))"

text \<open>
  Tab \<open>tabX\<close> is opened when the clock shows \<open>t0\<close>; every later reading is \<open>t1\<close>.
\<close>

definition scenarioPlatform :: "int \<Rightarrow> int \<Rightarrow> platform" where
  "scenarioPlatform t0 t1 = testPlatform (\<lambda>n. if n = 0 then t0 else t1) (\<lambda>c. False)"

definition createdWorld :: "platform \<Rightarrow> world" where
  "createdWorld p = snd (handleTabCreated p tabX (startWorld [tabX]))"

text \<open>
  A second tab, and a platform on which the clock advances from one reading to the next
  and a read of the queue is rejected once the queue has been written. \<open>busyWorld\<close> is the
  world after the two tabs have been opened on it, at 1000 and at 2000.
\<close>

definition tabY :: tab where
  "tabY = \<lparr>tab_id = 2, tab_url = Some ''https://y/'', tab_title = None, pinned = False\<rparr>"

definition lossyPlatform :: platform where
  "lossyPlatform =
     \<lparr>urlProtocol = schemeOf,
      clock = (\<lambda>n. if n = 0 then 1000 else if n = 1 then 2000 else if n = 2 then 90000000
                   else if n = 3 then 90000007 else 90000020),
      rejects = (\<lambda>h c. c = StorageGet CLOSED_ITEMS_KEY \<and> StorageSet CLOSED_ITEMS_KEY \<in> set h)\<rparr>"

definition busyWorld :: world where
  "busyWorld = run lossyPlatform [Created tabX, Created tabY] (startWorld [tabX, tabY])"

section \<open>Vocabulary of the timestamps\<close>

text \<open>
  Every stored record was opened no later than it was last active; every stored record
  was opened no later than the next reading of the clock.
\<close>

definition stampsOrdered :: "world \<Rightarrow> bool" where
  "stampsOrdered w = (\<forall>i e. storedMetadata w i = Some e \<longrightarrow> openedAt e \<le> lastActiveAt e)"

definition stampsPast :: "platform \<Rightarrow> world \<Rightarrow> bool" where
  "stampsPast p w = (\<forall>i e. storedMetadata w i = Some e \<longrightarrow> openedAt e \<le> clock p (ticks w))"

text \<open>No stored record has the timestamp 0 as its \<open>lastActiveAt\<close>.\<close>

definition stampsNonzero :: "world \<Rightarrow> bool" where
  "stampsNonzero w = (\<forall>i e. storedMetadata w i = Some e \<longrightarrow> lastActiveAt e \<noteq> 0)"

text \<open>
  \<open>x\<close> is a reading of the clock taken between the worlds \<open>w\<close> and \<open>w'\<close>. In a step from
  \<open>w\<close> to \<open>w'\<close> every record of \<open>w'\<close> is either new, with both timestamps one such reading,
  or has the \<open>openedAt\<close> of the record of \<open>w\<close> under the same key and a \<open>lastActiveAt\<close> that
  is unchanged or such a reading.
\<close>

definition stampedBetween :: "platform \<Rightarrow> world \<Rightarrow> world \<Rightarrow> int \<Rightarrow> bool" where
  "stampedBetween p w w' x = (\<exists>k. ticks w \<le> k \<and> k < ticks w' \<and> x = clock p k)"

definition stampStep :: "platform \<Rightarrow> world \<Rightarrow> world \<Rightarrow> bool" where
  "stampStep p w w' =
     (ticks w \<le> ticks w'
      \<and> (\<forall>i e'. storedMetadata w' i = Some e' \<longrightarrow>
            (openedAt e' = lastActiveAt e' \<and> stampedBetween p w w' (openedAt e'))
          \<or> (\<exists>e. storedMetadata w i = Some e \<and> openedAt e' = openedAt e
                \<and> (lastActiveAt e' = lastActiveAt e
                     \<or> stampedBetween p w w' (lastActiveAt e')))))"

text \<open>
  A tab that shows an internal page, the change that reports its title, and the
  platform of a browser start.
\<close>

definition settingsTab :: tab where
  "settingsTab = \<lparr>tab_id = 1, tab_url = Some ''chrome://settings/'',
                  tab_title = Some ''Settings'', pinned = False\<rparr>"

definition titleChange :: changeInfo where
  "titleChange = \<lparr>change_url = None, change_title = Some ''Settings'', change_status = None\<rparr>"

definition startupPlatform :: platform where
  "startupPlatform = scenarioPlatform 1000 2000"

section \<open>Vocabulary of the markdown link text\<close>

text \<open>What the escaping does to one character.\<close>

definition isBracket :: "char \<Rightarrow> bool" where
  "isBracket c = (c = CHR ''['' \<or> c = CHR '']'')"

definition escapeChar :: "char \<Rightarrow> string" where
  "escapeChar c = (if isBracket c then [backslash, c] else [c])"

text \<open>A decoder for the escaped text; the program has none.\<close>

fun unescapeLinkText :: "string \<Rightarrow> string" where
  "unescapeLinkText (c # d # cs) =
     (if c = backslash \<and> isBracket d then d # unescapeLinkText cs
      else c # unescapeLinkText (d # cs))"
| "unescapeLinkText cs = cs"

text \<open>A queued item whose title has brackets and ends in a backslash.\<close>

definition draftItem :: ClosedItem where
  "draftItem = \<lparr>item_openedAt = 1000, closedAt = 2000, item_url = ''https://example.org/a'',
      item_title = ''[draft] C:'' @ [backslash]\<rparr>"

section \<open>Running the platform calls\<close>

lemma await_ret [simp]: "await (ret x) f w = f x w"
  by (simp add: await_def ret_def)

lemma await_dateNow [simp]:
  "await (dateNow p) f w = f (clock p (ticks w)) (w\<lparr>ticks := Suc (ticks w)\<rparr>)"
  by (simp add: await_def dateNow_def)

lemma await_platformCall:
  "await (platformCall p c res eff) f w =
     (if rejects p (trace w) c then (Inl (Rejected c), w\<lparr>trace := trace w @ [c]\<rparr>)
      else f (res w) (eff (w\<lparr>trace := trace w @ [c]\<rparr>)))"
  by (simp add: await_def platformCall_def)

lemma await_swallow [simp]: "await (swallow m) f w = f () (snd (m w))"
  by (simp add: await_def swallow_def split: prod.splits)

lemma swallow_platformCall:
  "swallow (platformCall p c res eff) w =
     (Inr (), if rejects p (trace w) c then w\<lparr>trace := trace w @ [c]\<rparr>
              else eff (w\<lparr>trace := trace w @ [c]\<rparr>))"
  by (simp add: swallow_def platformCall_def)

lemma snd_platformCall:
  "snd (platformCall p c res eff w) =
     (if rejects p (trace w) c then w\<lparr>trace := trace w @ [c]\<rparr>
      else eff (w\<lparr>trace := trace w @ [c]\<rparr>))"
  by (simp add: platformCall_def)

lemma snd_tabsRemove:
  "snd (tabsRemove p i w) =
     w\<lparr>trace := trace w @ [TabsRemove i],
       openTabs := (if find (\<lambda>t. tab_id t = i) (openTabs w) \<noteq> None
                       \<and> \<not> rejects p (trace w) (TabsRemove i)
                    then filter (\<lambda>t. tab_id t \<noteq> i) (openTabs w) else openTabs w)\<rparr>"
  by (simp add: tabsRemove_def platformCall_def split: option.splits)

lemma closeAndLogTab_run:
  "closeAndLogTab p t (Some e) w =
    (let item = buildClosedItem e (clock p (ticks w));
         h1 = trace w @ [TabsRemove (tab_id t)];
         h2 = h1 @ [StorageGet CLOSED_ITEMS_KEY];
         h3 = h2 @ [StorageSet CLOSED_ITEMS_KEY];
         w1 = w\<lparr>ticks := Suc (ticks w),
                openTabs := (if find (\<lambda>x. tab_id x = tab_id t) (openTabs w) \<noteq> None
                               \<and> \<not> rejects p (trace w) (TabsRemove (tab_id t))
                            then filter (\<lambda>x. tab_id x \<noteq> tab_id t) (openTabs w) else openTabs w)\<rparr>
     in if rejects p h1 (StorageGet CLOSED_ITEMS_KEY)
        then (Inl (Rejected (StorageGet CLOSED_ITEMS_KEY)), w1\<lparr>trace := h2\<rparr>)
        else if rejects p h2 (StorageSet CLOSED_ITEMS_KEY)
        then (Inl (Rejected (StorageSet CLOSED_ITEMS_KEY)), w1\<lparr>trace := h3\<rparr>)
        else (Inr (), w1\<lparr>trace := h3 @ [Fetch item, SendMessage item],
                          closedItems := Some (storedItems w @ [item])\<rparr>))"
  by (simp add: closeAndLogTab_def snd_tabsRemove Let_def await_platformCall
      loadClosedItems_def saveClosedItems_def fetch_def sendMessage_def
      swallow_platformCall snd_platformCall storedItems_def)

lemma closeAndLogTab_frame:
  assumes "closeAndLogTab p t (Some e) w = (r, w')"
  shows "tabMetadata w' = tabMetadata w \<and> ticks w' = Suc (ticks w)
       \<and> (\<exists>xs. trace w' = trace w @ xs \<and> (\<forall>j. TabsRemove j \<in> set xs \<longrightarrow> j = tab_id t))
       \<and> (\<forall>x \<in> set (openTabs w). tab_id x \<noteq> tab_id t \<longrightarrow> x \<in> set (openTabs w'))
       \<and> set (openTabs w') \<subseteq> set (openTabs w)"
  using assms
  by (auto simp add: closeAndLogTab_run Let_def split: if_splits)

lemma schemeOf_http [simp]: "schemeOf (''http://'' @ u) = Some ''http:''"
  by (simp add: schemeOf_def)

lemma schemeOf_https [simp]: "schemeOf (''https://'' @ u) = Some ''https:''"
  by (simp add: schemeOf_def)

section \<open>The close-and-log pipeline\<close>

text \<open>
  C10. Called with an absent record (\<^verbatim>\<open>null\<close> or \<^verbatim>\<open>undefined\<close>), \<^verbatim>\<open>closeAndLogTab\<close>
  returns at once without an error: no tab is closed, nothing is appended to the queue,
  nothing is pushed or broadcast, the clock is not read, and the world is the one it
  was called in.
\<close>

theorem closeAndLogTab_absent_record_noop:
  "closeAndLogTab p t None w = (Inr (), w)"
  by (simp add: closeAndLogTab_def ret_def)

text \<open>
  C3, as the code has it. Once the closed item is built, the pipeline completes without an
  error exactly when the two storage calls of the queue append are not rejected, whatever
  happens to the closing of the tab, to the network push and to the broadcast: it then
  has issued the five calls in order and appended the item. A rejected read or write of
  the queue is the only error it passes to its caller; the queue is then unchanged and
  neither the push nor the broadcast is issued.
\<close>

theorem closeAndLogTab_later_steps:
  "case closeAndLogTab p t (Some e) w of (r, w') \<Rightarrow>
     (let item = buildClosedItem e (clock p (ticks w));
          h1 = trace w @ [TabsRemove (tab_id t)];
          h2 = h1 @ [StorageGet CLOSED_ITEMS_KEY]
      in (r = Inr () \<longleftrightarrow>
            \<not> rejects p h1 (StorageGet CLOSED_ITEMS_KEY)
            \<and> \<not> rejects p h2 (StorageSet CLOSED_ITEMS_KEY))
       \<and> (r = Inr () \<longrightarrow>
            newCalls w w' = [TabsRemove (tab_id t), StorageGet CLOSED_ITEMS_KEY,
                             StorageSet CLOSED_ITEMS_KEY, Fetch item, SendMessage item]
            \<and> closedItems w' = Some (storedItems w @ [item]))
       \<and> (\<forall>err. r = Inl err \<longrightarrow>
            (err = Rejected (StorageGet CLOSED_ITEMS_KEY)
               \<or> err = Rejected (StorageSet CLOSED_ITEMS_KEY))
            \<and> closedItems w' = closedItems w
            \<and> (\<forall>x. Fetch x \<notin> set (newCalls w w') \<and> SendMessage x \<notin> set (newCalls w w'))))"
  by (simp add: closeAndLogTab_run Let_def newCalls_def)

text \<open>
  At a platform that rejects the closing of the tab, the push and the broadcast, the
  pipeline still runs to its end and appends the item.
\<close>

theorem closeAndLogTab_later_steps_witness:
  "fst (closeAndLogTab flakyPlatform tabX (Some (recordX 0)) (startWorld [tabX])) = Inr ()
   \<and> newCalls (startWorld [tabX])
        (snd (closeAndLogTab flakyPlatform tabX (Some (recordX 0)) (startWorld [tabX])))
      = [TabsRemove 1, StorageGet CLOSED_ITEMS_KEY, StorageSet CLOSED_ITEMS_KEY,
         Fetch (buildClosedItem (recordX 0) 5), SendMessage (buildClosedItem (recordX 0) 5)]
   \<and> closedItems (snd (closeAndLogTab flakyPlatform tabX (Some (recordX 0)) (startWorld [tabX])))
      = Some [buildClosedItem (recordX 0) 5]"
  using closeAndLogTab_later_steps [where p = flakyPlatform and t = tabX and e = "recordX 0"
      and w = "startWorld [tabX]"]
  by (simp add: flakyPlatform_def testPlatform_def tabX_def startWorld_def storedItems_def
      Let_def split: prod.splits)

text \<open>
  C3 as stated fails for the queue append: when the read of the queue is rejected, the
  pipeline returns that error to its caller after two calls, without push or broadcast.
\<close>

theorem closeAndLogTab_append_failure_counterexample:
  "fst (closeAndLogTab noQueuePlatform tabX (Some (recordX 0)) (startWorld [tabX]))
     = Inl (Rejected (StorageGet CLOSED_ITEMS_KEY))
   \<and> trace (snd (closeAndLogTab noQueuePlatform tabX (Some (recordX 0)) (startWorld [tabX])))
     = [TabsRemove 1, StorageGet CLOSED_ITEMS_KEY]"
  by (simp add: closeAndLogTab_run noQueuePlatform_def testPlatform_def tabX_def
      startWorld_def Let_def)

text \<open>
  C7. When the push is rejected (the queue append before it having succeeded), the
  pipeline behaves as on the platform that differs only in accepting the push: it
  returns without an error, the item is the last one of the queue, and the broadcast is
  issued after the push.
\<close>

theorem closeAndLogTab_push_rejected:
  assumes "\<not> rejects p (trace w @ [TabsRemove (tab_id t)]) (StorageGet CLOSED_ITEMS_KEY)"
    and "\<not> rejects p (trace w @ [TabsRemove (tab_id t), StorageGet CLOSED_ITEMS_KEY])
             (StorageSet CLOSED_ITEMS_KEY)"
    and "rejects p (trace w @ [TabsRemove (tab_id t), StorageGet CLOSED_ITEMS_KEY,
                               StorageSet CLOSED_ITEMS_KEY])
           (Fetch (buildClosedItem e (clock p (ticks w))))"
  shows "closeAndLogTab p t (Some e) w
           = closeAndLogTab
               (p\<lparr>rejects := (\<lambda>h c. case c of Fetch x \<Rightarrow> False | _ \<Rightarrow> rejects p h c)\<rparr>)
               t (Some e) w
         \<and> fst (closeAndLogTab p t (Some e) w) = Inr ()
         \<and> storedItems (snd (closeAndLogTab p t (Some e) w))
             = storedItems w @ [buildClosedItem e (clock p (ticks w))]
         \<and> newCalls w (snd (closeAndLogTab p t (Some e) w))
             = [TabsRemove (tab_id t), StorageGet CLOSED_ITEMS_KEY,
                StorageSet CLOSED_ITEMS_KEY, Fetch (buildClosedItem e (clock p (ticks w))),
                SendMessage (buildClosedItem e (clock p (ticks w)))]"
  using assms
  by (simp add: closeAndLogTab_run Let_def newCalls_def storedItems_def)

theorem closeAndLogTab_push_rejected_witness:
  "fst (closeAndLogTab pushDownPlatform tabX (Some (recordX 0)) (startWorld [tabX])) = Inr ()
   \<and> storedItems (snd (closeAndLogTab pushDownPlatform tabX (Some (recordX 0))
                         (startWorld [tabX])))
      = [buildClosedItem (recordX 0) 5]
   \<and> newCalls (startWorld [tabX])
        (snd (closeAndLogTab pushDownPlatform tabX (Some (recordX 0)) (startWorld [tabX])))
      = [TabsRemove 1, StorageGet CLOSED_ITEMS_KEY, StorageSet CLOSED_ITEMS_KEY,
         Fetch (buildClosedItem (recordX 0) 5), SendMessage (buildClosedItem (recordX 0) 5)]"
proof -
  have a: "\<not> rejects pushDownPlatform (trace (startWorld [tabX]) @ [TabsRemove (tab_id tabX)])
              (StorageGet CLOSED_ITEMS_KEY)"
    by (simp add: pushDownPlatform_def testPlatform_def)
  have b: "\<not> rejects pushDownPlatform
              (trace (startWorld [tabX]) @ [TabsRemove (tab_id tabX), StorageGet CLOSED_ITEMS_KEY])
              (StorageSet CLOSED_ITEMS_KEY)"
    by (simp add: pushDownPlatform_def testPlatform_def)
  have c: "rejects pushDownPlatform
              (trace (startWorld [tabX]) @ [TabsRemove (tab_id tabX), StorageGet CLOSED_ITEMS_KEY,
                 StorageSet CLOSED_ITEMS_KEY])
              (Fetch (buildClosedItem (recordX 0) (clock pushDownPlatform (ticks (startWorld [tabX])))))"
    by (simp add: pushDownPlatform_def testPlatform_def)
  have d: "clock pushDownPlatform (ticks (startWorld [tabX])) = 5" "tab_id tabX = 1"
    "storedItems (startWorld [tabX]) = []"
    by (simp_all add: pushDownPlatform_def testPlatform_def tabX_def storedItems_def startWorld_def)
  from closeAndLogTab_push_rejected [OF a b c, THEN conjunct2] show ?thesis
    by (simp add: d)
qed

section \<open>The stale scanner\<close>

lemma promiseAll2_query_load:
  "promiseAll2 (tabsQuery p) (loadTabMetadata p) w =
     ((if rejects p (trace w) TabsQuery then Inl (Rejected TabsQuery)
       else if rejects p (trace w @ [TabsQuery]) (StorageGet TAB_METADATA_KEY)
         then Inl (Rejected (StorageGet TAB_METADATA_KEY))
       else Inr (openTabs w, storedMetadata w)),
      w\<lparr>trace := trace w @ [TabsQuery, StorageGet TAB_METADATA_KEY]\<rparr>)"
  by (simp add: promiseAll2_def tabsQuery_def loadTabMetadata_def platformCall_def
      storedMetadata_def)

lemma checkForStaleTabs_run:
  "checkForStaleTabs p w =
     (if rejects p (trace w) TabsQuery
      then (Inl (Rejected TabsQuery),
            w\<lparr>trace := trace w @ [TabsQuery, StorageGet TAB_METADATA_KEY]\<rparr>)
      else if rejects p (trace w @ [TabsQuery]) (StorageGet TAB_METADATA_KEY)
      then (Inl (Rejected (StorageGet TAB_METADATA_KEY)),
            w\<lparr>trace := trace w @ [TabsQuery, StorageGet TAB_METADATA_KEY]\<rparr>)
      else await (scanLoop p (clock p (ticks w)) (openTabs w) (storedMetadata w))
             (saveTabMetadata p)
             (w\<lparr>trace := trace w @ [TabsQuery, StorageGet TAB_METADATA_KEY],
                 ticks := Suc (ticks w)\<rparr>))"
  by (simp add: checkForStaleTabs_def await_def promiseAll2_query_load dateNow_def)

lemma effectiveLastActive_fresh [simp]:
  "\<not> STALE_THRESHOLD_MS \<le> now - effectiveLastActive (freshRecord now t ttl) now"
  by (simp add: effectiveLastActive_def freshRecord_def STALE_THRESHOLD_MS_def)

lemma scanLoop_Nil [simp]: "scanLoop p now [] m w = (Inr m, w)"
  by (simp add: ret_def)

lemma scanLoop_Cons:
  "scanLoop p now (t # ts) m w =
     (if pinned t \<or> \<not> isSupportedHttpUrl p (tab_url t) then scanLoop p now ts m w
      else if now - effectiveLastActive (scanEntry now m t) now \<ge> STALE_THRESHOLD_MS
      then (case closeAndLogTab p t (Some (scanEntry now m t)) w of
              (Inl err, w1) \<Rightarrow> (Inl err, w1)
            | (Inr u, w1) \<Rightarrow> scanLoop p now ts (m(tab_id t := None)) w1)
      else scanLoop p now ts (m(tab_id t \<mapsto> scanEntry now m t)) w)"
  by (auto simp add: Let_def await_def scanEntry_def fun_upd_idem_iff split: option.splits
      intro!: arg_cong [where f = "\<lambda>m. scanLoop p now ts m _"])

declare scanLoop.simps [simp del]

lemma unpinnedIds_Nil [simp]: "unpinnedIds [] = {}"
  by (simp add: unpinnedIds_def)

lemma unpinnedIds_Cons [simp]:
  "unpinnedIds (t # ts) = (if pinned t then unpinnedIds ts else insert (tab_id t) (unpinnedIds ts))"
  by (auto simp add: unpinnedIds_def)

lemma scanLoop_frame:
  "scanLoop p now ts m w = (r, w') \<Longrightarrow>
     tabMetadata w' = tabMetadata w \<and> ticks w \<le> ticks w'
   \<and> (\<exists>xs. trace w' = trace w @ xs
         \<and> (\<forall>j. TabsRemove j \<in> set xs \<longrightarrow> j \<in> unpinnedIds ts))
   \<and> (\<forall>x \<in> set (openTabs w). tab_id x \<notin> unpinnedIds ts
         \<longrightarrow> x \<in> set (openTabs w'))
   \<and> (\<forall>m'. r = Inr m' \<longrightarrow> (\<forall>i. i \<notin> unpinnedIds ts \<longrightarrow> m' i = m i))"
proof (induction ts arbitrary: m w)
  case Nil
  then show ?case by auto
next
  case (Cons t ts)
  show ?case
  proof (cases "pinned t \<or> \<not> isSupportedHttpUrl p (tab_url t)")
    case True
    with Cons.prems have "scanLoop p now ts m w = (r, w')" by (simp add: scanLoop_Cons)
    from Cons.IH [OF this] show ?thesis by auto
  next
    case False
    show ?thesis
    proof (cases "now - effectiveLastActive (scanEntry now m t) now \<ge> STALE_THRESHOLD_MS")
      case stale: True
      obtain r1 w1 where c: "closeAndLogTab p t (Some (scanEntry now m t)) w = (r1, w1)"
        by (cases "closeAndLogTab p t (Some (scanEntry now m t)) w")
      note fr = closeAndLogTab_frame [OF c]
      show ?thesis
      proof (cases r1)
        case (Inl err)
        with Cons.prems False stale c have "r = Inl err" "w' = w1"
          by (auto simp add: scanLoop_Cons)
        with fr show ?thesis using False by auto
      next
        case (Inr u)
        with Cons.prems False stale c
        have "scanLoop p now ts (m(tab_id t := None)) w1 = (r, w')"
          by (auto simp add: scanLoop_Cons)
        from Cons.IH [OF this] fr show ?thesis using False
          by (auto; metis)
      qed
    next
      case fresh: False
      with Cons.prems False
      have "scanLoop p now ts (m(tab_id t \<mapsto> scanEntry now m t)) w = (r, w')"
        by (auto simp add: scanLoop_Cons)
      from Cons.IH [OF this] show ?thesis using False by (auto; metis)
    qed
  qed
qed

lemma pinned_not_unpinnedIds:
  assumes "distinct (map tab_id ts)" "t \<in> set ts" "pinned t"
  shows "tab_id t \<notin> unpinnedIds ts"
proof
  assume "tab_id t \<in> unpinnedIds ts"
  then obtain x where x: "x \<in> set ts" "\<not> pinned x" "tab_id x = tab_id t"
    by (auto simp add: unpinnedIds_def)
  from assms(1) have "inj_on tab_id (set ts)" by (simp add: distinct_map)
  with x assms(2) have "x = t" by (auto dest: inj_onD)
  with x assms(3) show False by simp
qed

lemma scanLoop_skips_pinned:
  "scanLoop p now ts m w = scanLoop p now (filter (\<lambda>x. \<not> pinned x) ts) m w"
  by (induction ts arbitrary: m w) (auto simp add: scanLoop_Cons split: prod.splits sum.splits)

lemma checkForStaleTabs_frame:
  assumes "checkForStaleTabs p w = (r, w')"
  shows "(\<forall>j. TabsRemove j \<in> set (newCalls w w') \<longrightarrow> j \<in> unpinnedIds (openTabs w))
       \<and> (\<forall>x \<in> set (openTabs w). tab_id x \<notin> unpinnedIds (openTabs w) \<longrightarrow> x \<in> set (openTabs w'))
       \<and> (\<forall>i. i \<notin> unpinnedIds (openTabs w) \<longrightarrow> storedMetadata w' i = storedMetadata w i)"
proof (cases "rejects p (trace w) TabsQuery
    \<or> rejects p (trace w @ [TabsQuery]) (StorageGet TAB_METADATA_KEY)")
  case True
  with assms show ?thesis
    by (auto simp add: checkForStaleTabs_run newCalls_def storedMetadata_def split: if_splits)
next
  case False
  define w0 where "w0 = w\<lparr>trace := trace w @ [TabsQuery, StorageGet TAB_METADATA_KEY],
                          ticks := Suc (ticks w)\<rparr>"
  obtain r1 w1 where s: "scanLoop p (clock p (ticks w)) (openTabs w) (storedMetadata w) w0 = (r1, w1)"
    by (cases "scanLoop p (clock p (ticks w)) (openTabs w) (storedMetadata w) w0")
  from scanLoop_frame [OF s] obtain xs where
    fr: "tabMetadata w1 = tabMetadata w" "trace w1 = trace w0 @ xs"
      "\<forall>j. TabsRemove j \<in> set xs \<longrightarrow> j \<in> unpinnedIds (openTabs w)"
      "\<forall>x \<in> set (openTabs w). tab_id x \<notin> unpinnedIds (openTabs w) \<longrightarrow> x \<in> set (openTabs w1)"
      "\<forall>m'. r1 = Inr m' \<longrightarrow> (\<forall>i. i \<notin> unpinnedIds (openTabs w) \<longrightarrow> m' i = storedMetadata w i)"
    by (auto simp add: w0_def)
  from assms False s have res: "(r, w') = await (\<lambda>v. (r1, w1)) (saveTabMetadata p) w0"
    by (simp add: checkForStaleTabs_run w0_def await_def)
  show ?thesis
  proof (cases r1)
    case (Inl err)
    with res have "w' = w1" by (simp add: await_def)
    with fr show ?thesis
      by (auto simp add: newCalls_def w0_def storedMetadata_def)
  next
    case (Inr m')
    with res have "(r, w') = saveTabMetadata p m' w1" by (simp add: await_def)
    with fr Inr show ?thesis
      by (auto simp add: newCalls_def w0_def storedMetadata_def saveTabMetadata_def
          platformCall_def split: if_splits)
  qed
qed

text \<open>
  C8. A pinned tab of the snapshot (tab ids being distinct) is not touched by a run of
  the scanner, whatever its record says: no \<^verbatim>\<open>chrome.tabs.remove\<close> is issued for it, it is
  still open afterwards, and its entry in the stored metadata is what it was. The sweep
  over a snapshot is the sweep over the snapshot without its pinned tabs, so nothing is
  appended to the queue on behalf of a pinned tab.
\<close>

theorem pinned_tab_never_evicted:
  assumes "t \<in> set (openTabs w)" and "pinned t" and "distinct (map tab_id (openTabs w))"
  shows "(case checkForStaleTabs p w of (r, w') \<Rightarrow>
            TabsRemove (tab_id t) \<notin> set (newCalls w w')
            \<and> t \<in> set (openTabs w')
            \<and> storedMetadata w' (tab_id t) = storedMetadata w (tab_id t))
         \<and> scanLoop p now (openTabs w) m
             = scanLoop p now (filter (\<lambda>x. \<not> pinned x) (openTabs w)) m"
proof -
  from assms have "tab_id t \<notin> unpinnedIds (openTabs w)"
    by (simp add: pinned_not_unpinnedIds)
  moreover obtain r w' where c: "checkForStaleTabs p w = (r, w')"
    by (cases "checkForStaleTabs p w")
  ultimately show ?thesis
    using checkForStaleTabs_frame [OF c] assms(1) scanLoop_skips_pinned
    by auto
qed

text \<open>A pinned tab whose record is 48 hours old survives the scan.\<close>

theorem pinned_tab_never_evicted_witness:
  "172800000 \<le> 172801000 - lastActiveAt pinnedRecord
   \<and> storedMetadata pinnedWorld 7 = Some pinnedRecord
   \<and> pinnedTab \<in> set (openTabs (snd (checkForStaleTabs (steadyPlatform 172801000) pinnedWorld)))
   \<and> TabsRemove 7 \<notin> set (newCalls pinnedWorld
        (snd (checkForStaleTabs (steadyPlatform 172801000) pinnedWorld)))
   \<and> storedMetadata (snd (checkForStaleTabs (steadyPlatform 172801000) pinnedWorld)) 7
        = Some pinnedRecord"
proof -
  have a: "pinnedTab \<in> set (openTabs pinnedWorld)" "pinned pinnedTab"
    "distinct (map tab_id (openTabs pinnedWorld))"
    by (simp_all add: pinnedWorld_def startWorld_def pinnedTab_def tabX_def)
  have b: "tab_id pinnedTab = 7" "storedMetadata pinnedWorld 7 = Some pinnedRecord"
    "lastActiveAt pinnedRecord = 1000"
    by (simp_all add: pinnedTab_def pinnedWorld_def storedMetadata_def pinnedRecord_def)
  from pinned_tab_never_evicted [OF a, where p = "steadyPlatform 172801000" and now = 0
      and m = Map.empty, THEN conjunct1]
  show ?thesis
    by (simp add: b case_prod_beta)
qed

lemma staleTabs_cong:
  "\<forall>t \<in> set ts. m1 (tab_id t) = m (tab_id t)
     \<Longrightarrow> staleTabs p now m1 ts = staleTabs p now m ts"
  by (induction ts) (simp_all split: option.splits)

lemma staleTabs_member:
  "(t, e) \<in> set (staleTabs p now m ts) \<Longrightarrow>
     t \<in> set ts \<and> m (tab_id t) = Some e \<and> \<not> pinned t \<and> isSupportedHttpUrl p (tab_url t)
     \<and> now - effectiveLastActive e now \<ge> STALE_THRESHOLD_MS"
  by (induction ts) (auto split: option.splits if_splits)

lemma staleTabs_complete:
  "t \<in> set ts \<Longrightarrow> m (tab_id t) = Some e \<Longrightarrow> \<not> pinned t \<Longrightarrow> isSupportedHttpUrl p (tab_url t)
     \<Longrightarrow> now - effectiveLastActive e now \<ge> STALE_THRESHOLD_MS
     \<Longrightarrow> (t, e) \<in> set (staleTabs p now m ts)"
  by (induction ts) (auto split: option.splits if_splits)

lemma staleTabs_ids_distinct:
  "distinct (map tab_id ts) \<Longrightarrow> distinct (map (\<lambda>(t, e). tab_id t) (staleTabs p now m ts))"
  by (induction ts) (auto split: option.splits dest!: staleTabs_member)

lemma closeAndLogTab_reliable:
  assumes "storageReliable p"
  shows "closeAndLogTab p t (Some e) w =
    (Inr (), w\<lparr>ticks := Suc (ticks w),
               openTabs := (if find (\<lambda>x. tab_id x = tab_id t) (openTabs w) \<noteq> None
                               \<and> \<not> rejects p (trace w) (TabsRemove (tab_id t))
                            then filter (\<lambda>x. tab_id x \<noteq> tab_id t) (openTabs w) else openTabs w),
               trace := trace w @ [TabsRemove (tab_id t), StorageGet CLOSED_ITEMS_KEY,
                  StorageSet CLOSED_ITEMS_KEY, Fetch (buildClosedItem e (clock p (ticks w))),
                  SendMessage (buildClosedItem e (clock p (ticks w)))],
               closedItems := Some (storedItems w @ [buildClosedItem e (clock p (ticks w))])\<rparr>)"
  using assms by (simp add: closeAndLogTab_run storageReliable_def Let_def)

lemma scanLoop_reliable:
  assumes rel: "storageReliable p"
  shows "distinct (map tab_id ts) \<Longrightarrow> scanPost p now ts m w (scanLoop p now ts m w)"
proof (induction ts arbitrary: m w)
  case Nil
  show ?case by (simp add: scanPost_def enumerate_eq_zip)
next
  case (Cons t ts)
  from Cons.prems have d: "distinct (map tab_id ts)" and nt: "tab_id t \<notin> tab_id ` set ts"
    by auto
  from nt have nt': "\<forall>x \<in> set ts. tab_id x \<noteq> tab_id t" by (metis imageI)
  have same: "staleTabs p now (m(tab_id t := v)) ts = staleTabs p now m ts" for v
    using nt' by (intro staleTabs_cong) simp
  show ?case
  proof (cases "pinned t \<or> \<not> isSupportedHttpUrl p (tab_url t)")
    case True
    then have "staleTabs p now m (t # ts) = staleTabs p now m ts"
      by (auto split: option.splits)
    with Cons.IH [OF d, of m w] True show ?thesis
      by (auto simp add: scanLoop_Cons scanPost_def)
  next
    case False
    show ?thesis
    proof (cases "m (tab_id t)")
      case None
      then have st: "staleTabs p now m (t # ts) = staleTabs p now m ts" by simp
      from None False
      have run: "scanLoop p now (t # ts) m w
                   = scanLoop p now ts (m(tab_id t \<mapsto> scanEntry now m t)) w"
        by (simp add: scanLoop_Cons scanEntry_def)
      have keep: "(m(tab_id t \<mapsto> scanEntry now m t)) i = Some e" if "m i = Some e" for i e
        using that None by auto
      from Cons.IH [OF d, of "m(tab_id t \<mapsto> scanEntry now m t)" w]
      obtain m' w' xs where ih:
        "scanLoop p now ts (m(tab_id t \<mapsto> scanEntry now m t)) w = (Inr m', w')"
        "\<forall>(x, e) \<in> set (staleTabs p now m ts). m' (tab_id x) = None"
        "\<forall>i. i \<notin> tab_id ` set ts \<longrightarrow> m' i = (m(tab_id t \<mapsto> scanEntry now m t)) i"
        "\<forall>i e. (m(tab_id t \<mapsto> scanEntry now m t)) i = Some e
            \<longrightarrow> i \<notin> (\<lambda>(t, e). tab_id t) ` set (staleTabs p now m ts) \<longrightarrow> m' i = Some e"
        "storedItems w' = storedItems w
             @ map (\<lambda>(k, (t, e)). buildClosedItem e (clock p k))
                 (enumerate (ticks w) (staleTabs p now m ts))"
        "trace w' = trace w @ xs"
        "filter isTabsRemove xs = map (\<lambda>(t, e). TabsRemove (tab_id t)) (staleTabs p now m ts)"
        unfolding scanPost_def same by (auto simp del: fun_upd_apply)
      from ih(4) keep have surv: "\<forall>i e. m i = Some e
            \<longrightarrow> i \<notin> (\<lambda>(t, e). tab_id t) ` set (staleTabs p now m ts) \<longrightarrow> m' i = Some e"
        by blast
      from ih(3) have fr: "\<forall>i. i \<notin> tab_id ` set (t # ts) \<longrightarrow> m' i = m i" by simp
      from ih(1,2,5,6,7) surv fr show ?thesis
        unfolding run st scanPost_def by auto
    next
      case (Some e)
      then have en: "scanEntry now m t = e" by (simp add: scanEntry_def)
      from Some have idem: "m(tab_id t \<mapsto> e) = m" by (simp add: fun_upd_idem_iff)
      show ?thesis
      proof (cases "now - effectiveLastActive e now \<ge> STALE_THRESHOLD_MS")
        case notstale: False
        with Some False have st: "staleTabs p now m (t # ts) = staleTabs p now m ts" by simp
        from notstale False en idem
        have run: "scanLoop p now (t # ts) m w = scanLoop p now ts m w"
          by (simp add: scanLoop_Cons)
        from Cons.IH [OF d, of m w] show ?thesis
          unfolding run st scanPost_def by auto
      next
        case stale: True
        with Some False have st: "staleTabs p now m (t # ts) = (t, e) # staleTabs p now m ts"
          by simp
        define w1 where "w1 = snd (closeAndLogTab p t (Some e) w)"
        have c: "closeAndLogTab p t (Some e) w = (Inr (), w1)"
          by (simp add: w1_def closeAndLogTab_reliable [OF rel])
        have w1: "ticks w1 = Suc (ticks w)"
          "storedItems w1 = storedItems w @ [buildClosedItem e (clock p (ticks w))]"
          "trace w1 = trace w @ [TabsRemove (tab_id t), StorageGet CLOSED_ITEMS_KEY,
                  StorageSet CLOSED_ITEMS_KEY, Fetch (buildClosedItem e (clock p (ticks w))),
                  SendMessage (buildClosedItem e (clock p (ticks w)))]"
          by (simp_all add: w1_def closeAndLogTab_reliable [OF rel] storedItems_def)
        from stale False en c
        have run: "scanLoop p now (t # ts) m w = scanLoop p now ts (m(tab_id t := None)) w1"
          by (simp add: scanLoop_Cons)
        from Cons.IH [OF d, of "m(tab_id t := None)" w1] nt show ?thesis
          unfolding run st scanPost_def same
          by (auto simp add: w1 isTabsRemove_def)
      qed
    qed
  qed
qed

lemma checkForStaleTabs_reliable:
  assumes "storageReliable p" and "\<forall>h. \<not> rejects p h TabsQuery"
    and "distinct (map tab_id (openTabs w))"
  shows "\<exists>w'. checkForStaleTabs p w = (Inr (), w')
       \<and> filter isTabsRemove (newCalls w w')
           = map (\<lambda>(t, e). TabsRemove (tab_id t))
               (staleTabs p (clock p (ticks w)) (storedMetadata w) (openTabs w))
       \<and> (\<forall>(t, e) \<in> set (staleTabs p (clock p (ticks w)) (storedMetadata w) (openTabs w)).
             storedMetadata w' (tab_id t) = None)
       \<and> (\<forall>i e. storedMetadata w i = Some e
             \<longrightarrow> i \<notin> (\<lambda>(t, e). tab_id t)
                      ` set (staleTabs p (clock p (ticks w)) (storedMetadata w) (openTabs w))
             \<longrightarrow> storedMetadata w' i = Some e)
       \<and> storedItems w' = storedItems w
            @ map (\<lambda>(k, (t, e)). buildClosedItem e (clock p k))
                (enumerate (Suc (ticks w))
                   (staleTabs p (clock p (ticks w)) (storedMetadata w) (openTabs w)))"
proof -
  define now where "now = clock p (ticks w)"
  define stale where "stale = staleTabs p now (storedMetadata w) (openTabs w)"
  define w0 where "w0 = w\<lparr>trace := trace w @ [TabsQuery, StorageGet TAB_METADATA_KEY],
                          ticks := Suc (ticks w)\<rparr>"
  obtain r1 w1 where s: "scanLoop p now (openTabs w) (storedMetadata w) w0 = (r1, w1)"
    by (cases "scanLoop p now (openTabs w) (storedMetadata w) w0")
  from scanLoop_reliable [OF assms(1) assms(3), of now "storedMetadata w" w0] s
  obtain m' xs where post:
    "r1 = Inr m'" "\<forall>(t, e) \<in> set stale. m' (tab_id t) = None"
    "\<forall>i e. storedMetadata w i = Some e \<longrightarrow> i \<notin> (\<lambda>(t, e). tab_id t) ` set stale
        \<longrightarrow> m' i = Some e"
    "storedItems w1 = storedItems w0
       @ map (\<lambda>(k, (t, e)). buildClosedItem e (clock p k)) (enumerate (ticks w0) stale)"
    "trace w1 = trace w0 @ xs"
    "filter isTabsRemove xs = map (\<lambda>(t, e). TabsRemove (tab_id t)) stale"
    by (auto simp add: scanPost_def stale_def)
  define w' where
    "w' = w1\<lparr>trace := trace w1 @ [StorageSet TAB_METADATA_KEY], tabMetadata := Some m'\<rparr>"
  from assms(1,2) s post(1)
  have res: "checkForStaleTabs p w = (Inr (), w')"
    by (simp add: checkForStaleTabs_run storageReliable_def await_def now_def w0_def
        saveTabMetadata_def platformCall_def w'_def)
  have calls: "filter isTabsRemove (newCalls w w') = map (\<lambda>(t, e). TabsRemove (tab_id t)) stale"
    using post(5,6) by (simp add: newCalls_def w0_def isTabsRemove_def w'_def)
  have items: "storedItems w' = storedItems w
      @ map (\<lambda>(k, (t, e)). buildClosedItem e (clock p k)) (enumerate (Suc (ticks w)) stale)"
    using post(4) by (simp add: storedItems_def w0_def w'_def)
  have gone: "\<forall>(t, e) \<in> set stale. storedMetadata w' (tab_id t) = None"
    using post(2) by (simp add: storedMetadata_def w'_def)
  have kept: "\<forall>i e. storedMetadata w i = Some e \<longrightarrow> i \<notin> (\<lambda>(t, e). tab_id t) ` set stale
        \<longrightarrow> storedMetadata w' i = Some e"
  proof -
    have "storedMetadata w' = m'" by (simp add: storedMetadata_def w'_def)
    with post(3) show ?thesis by simp
  qed
  from res calls items gone kept show ?thesis
    unfolding stale_def now_def by blast
qed

lemma handleTabCreated_run:
  "handleTabCreated p t w =
     (if \<not> isSupportedHttpUrl p (tab_url t) then (Inr (), w)
      else if rejects p (trace w) (StorageGet TAB_METADATA_KEY)
      then (Inl (Rejected (StorageGet TAB_METADATA_KEY)),
            w\<lparr>trace := trace w @ [StorageGet TAB_METADATA_KEY]\<rparr>)
      else if rejects p (trace w @ [StorageGet TAB_METADATA_KEY]) (StorageSet TAB_METADATA_KEY)
      then (Inl (Rejected (StorageSet TAB_METADATA_KEY)),
            w\<lparr>ticks := Suc (ticks w),
              trace := trace w @ [StorageGet TAB_METADATA_KEY, StorageSet TAB_METADATA_KEY]\<rparr>)
      else (Inr (),
            w\<lparr>ticks := Suc (ticks w),
              trace := trace w @ [StorageGet TAB_METADATA_KEY, StorageSet TAB_METADATA_KEY],
              tabMetadata := Some ((storedMetadata w)
                (tab_id t \<mapsto> freshRecord (clock p (ticks w)) t (orStr (tab_title t) [])))\<rparr>))"
  unfolding handleTabCreated_def loadTabMetadata_def saveTabMetadata_def
  by (simp add: await_platformCall ret_def) (simp add: platformCall_def)

lemma isSupportedHttpUrl_tabX [simp]:
  "isSupportedHttpUrl (scenarioPlatform t0 t1) (tab_url tabX)"
  by (simp add: isSupportedHttpUrl_def scenarioPlatform_def testPlatform_def tabX_def
      truthy_def orStr_def schemeOf_def)

lemma createdWorld_scenario:
  "createdWorld (scenarioPlatform t0 t1) =
     (startWorld [tabX])\<lparr>tabMetadata := Some [1 \<mapsto> recordX t0], ticks := 1,
        trace := [StorageGet TAB_METADATA_KEY, StorageSet TAB_METADATA_KEY]\<rparr>"
  by (simp add: createdWorld_def handleTabCreated_run)
     (simp add: scenarioPlatform_def testPlatform_def startWorld_def tabX_def recordX_def
      freshRecord_def orStr_def storedMetadata_def)

text \<open>
  C2 on the code. The options page persists an inactivity window of one hour; two hours
  after the tab was last active the scanner runs and leaves the tab open, because it
  compares with the constant \<open>STALE_THRESHOLD_MS\<close> and never reads the persisted key:
  the run issues no storage read of that key, no \<^verbatim>\<open>chrome.tabs.remove\<close> and logs nothing.
\<close>

theorem scan_ignores_persisted_threshold:
  "inactivityThresholdHours
      (snd (saveInactivityThreshold (scenarioPlatform 1000 7201000) (Some 1)
             (createdWorld (scenarioPlatform 1000 7201000)))) = Some 1
   \<and> 7201000 - lastActiveAt (recordX 1000) \<ge> 1 * 60 * 60 * 1000
   \<and> checkForStaleTabs (scenarioPlatform 1000 7201000)
        (snd (saveInactivityThreshold (scenarioPlatform 1000 7201000) (Some 1)
               (createdWorld (scenarioPlatform 1000 7201000))))
      = (Inr (), (startWorld [tabX])
           \<lparr>tabMetadata := Some [1 \<mapsto> recordX 1000],
            inactivityThresholdHours := Some 1,
            ticks := 2,
            trace := [StorageGet TAB_METADATA_KEY, StorageSet TAB_METADATA_KEY,
                      StorageSet INACTIVITY_THRESHOLD_KEY, SettingsStatus True, TabsQuery,
                      StorageGet TAB_METADATA_KEY, StorageSet TAB_METADATA_KEY]\<rparr>)"
  by (simp add: createdWorld_scenario saveInactivityThreshold_def setSettingsStatus_def
        checkForStaleTabs_run scanLoop_Cons scanEntry_def
        startWorld_def storedMetadata_def await_def saveTabMetadata_def platformCall_def)
     (simp add: scenarioPlatform_def testPlatform_def recordX_def tabX_def
        effectiveLastActive_def STALE_THRESHOLD_MS_def)

section \<open>The event handlers\<close>

lemma saveTabMetadata_run:
  "saveTabMetadata p m w =
     (if rejects p (trace w) (StorageSet TAB_METADATA_KEY)
      then (Inl (Rejected (StorageSet TAB_METADATA_KEY)),
            w\<lparr>trace := trace w @ [StorageSet TAB_METADATA_KEY]\<rparr>)
      else (Inr (), w\<lparr>trace := trace w @ [StorageSet TAB_METADATA_KEY],
                       tabMetadata := Some m\<rparr>))"
  by (simp add: saveTabMetadata_def platformCall_def)

lemma await_loadTabMetadata:
  "await (loadTabMetadata p) f w =
     (if rejects p (trace w) (StorageGet TAB_METADATA_KEY)
      then (Inl (Rejected (StorageGet TAB_METADATA_KEY)),
            w\<lparr>trace := trace w @ [StorageGet TAB_METADATA_KEY]\<rparr>)
      else f (storedMetadata w) (w\<lparr>trace := trace w @ [StorageGet TAB_METADATA_KEY]\<rparr>))"
  by (simp add: loadTabMetadata_def await_platformCall)

lemma handleTabUpdated_run:
  "handleTabUpdated p i ci t w =
     (if \<not> truthy (change_url ci) \<and> \<not> truthy (change_title ci)
          \<and> change_status ci \<noteq> Some ''complete''
      then (Inr (), w)
      else if rejects p (trace w) (StorageGet TAB_METADATA_KEY)
      then (Inl (Rejected (StorageGet TAB_METADATA_KEY)),
            w\<lparr>trace := trace w @ [StorageGet TAB_METADATA_KEY]\<rparr>)
      else (case storedMetadata w i of
          None \<Rightarrow>
            if \<not> isSupportedHttpUrl p (tab_url t)
            then (Inr (), w\<lparr>trace := trace w @ [StorageGet TAB_METADATA_KEY]\<rparr>)
            else saveTabMetadata p
                   ((storedMetadata w)(i \<mapsto> freshRecord (clock p (ticks w)) t
                        (orStr (tab_title t) (orStr (change_title ci) []))))
                   (w\<lparr>trace := trace w @ [StorageGet TAB_METADATA_KEY],
                      ticks := Suc (ticks w)\<rparr>)
        | Some entry \<Rightarrow>
            saveTabMetadata p ((storedMetadata w)(i \<mapsto> updateEntry p ci t entry))
              (w\<lparr>trace := trace w @ [StorageGet TAB_METADATA_KEY]\<rparr>)))"
  unfolding handleTabUpdated_def
  by (simp add: await_loadTabMetadata ret_def split: option.splits)

lemma handleTabRemoved_run:
  "handleTabRemoved p i w =
     (if rejects p (trace w) (StorageGet TAB_METADATA_KEY)
      then (Inl (Rejected (StorageGet TAB_METADATA_KEY)),
            w\<lparr>trace := trace w @ [StorageGet TAB_METADATA_KEY]\<rparr>)
      else if storedMetadata w i \<noteq> None
      then saveTabMetadata p ((storedMetadata w)(i := None))
             (w\<lparr>trace := trace w @ [StorageGet TAB_METADATA_KEY]\<rparr>)
      else (Inr (), w\<lparr>trace := trace w @ [StorageGet TAB_METADATA_KEY]\<rparr>))"
  unfolding handleTabRemoved_def
  by (simp add: await_loadTabMetadata ret_def)

lemma tabsGet_run:
  "tabsGet p i w =
     (case find (\<lambda>t. tab_id t = i) (openTabs w) of
        None \<Rightarrow> (Inl (Rejected (TabsGet i)), w\<lparr>trace := trace w @ [TabsGet i]\<rparr>)
      | Some t \<Rightarrow> if rejects p (trace w) (TabsGet i)
                  then (Inl (Rejected (TabsGet i)), w\<lparr>trace := trace w @ [TabsGet i]\<rparr>)
                  else (Inr t, w\<lparr>trace := trace w @ [TabsGet i]\<rparr>))"
  by (simp add: tabsGet_def platformCall_def split: option.splits)

lemma handleTabActivated_run:
  "handleTabActivated p i w =
     (if rejects p (trace w) (StorageGet TAB_METADATA_KEY)
      then (Inl (Rejected (StorageGet TAB_METADATA_KEY)),
            w\<lparr>trace := trace w @ [StorageGet TAB_METADATA_KEY]\<rparr>)
      else (case storedMetadata w i of
          None \<Rightarrow>
            (case find (\<lambda>t. tab_id t = i) (openTabs w) of
               None \<Rightarrow> (Inr (), w\<lparr>trace := trace w @ [StorageGet TAB_METADATA_KEY, TabsGet i],
                                  ticks := Suc (ticks w)\<rparr>)
             | Some t \<Rightarrow>
                 if rejects p (trace w @ [StorageGet TAB_METADATA_KEY]) (TabsGet i)
                    \<or> \<not> isSupportedHttpUrl p (tab_url t)
                 then (Inr (), w\<lparr>trace := trace w @ [StorageGet TAB_METADATA_KEY, TabsGet i],
                                 ticks := Suc (ticks w)\<rparr>)
                 else saveTabMetadata p
                        ((storedMetadata w)(i \<mapsto> freshRecord (clock p (ticks w)) t
                            (orStr (tab_title t) [])))
                        (w\<lparr>ticks := Suc (ticks w),
                           trace := trace w @ [StorageGet TAB_METADATA_KEY, TabsGet i]\<rparr>))
        | Some entry \<Rightarrow>
            saveTabMetadata p
              ((storedMetadata w)(i \<mapsto> entry\<lparr>lastActiveAt := clock p (ticks w)\<rparr>))
              (w\<lparr>trace := trace w @ [StorageGet TAB_METADATA_KEY],
                 ticks := Suc (ticks w)\<rparr>)))"
  unfolding handleTabActivated_def
  by (simp add: await_loadTabMetadata tabsGet_run split: option.splits)

lemma ensureAlarm_run:
  "ensureAlarm p w =
     (if rejects p (trace w) AlarmsGet
      then (Inl (Rejected AlarmsGet), w\<lparr>trace := trace w @ [AlarmsGet]\<rparr>)
      else if alarm w then (Inr (), w\<lparr>trace := trace w @ [AlarmsGet]\<rparr>)
      else if rejects p (trace w @ [AlarmsGet]) AlarmsCreate
      then (Inl (Rejected AlarmsCreate), w\<lparr>trace := trace w @ [AlarmsGet, AlarmsCreate]\<rparr>)
      else (Inr (), w\<lparr>trace := trace w @ [AlarmsGet, AlarmsCreate], alarm := True\<rparr>))"
  unfolding ensureAlarm_def alarmsGet_def alarmsCreate_def
  by (simp add: await_platformCall ret_def) (simp add: platformCall_def)

lemma initialiseExistingTabs_run:
  "initialiseExistingTabs p w =
     (if rejects p (trace w) TabsQuery
      then (Inl (Rejected TabsQuery),
            w\<lparr>trace := trace w @ [TabsQuery, StorageGet TAB_METADATA_KEY]\<rparr>)
      else if rejects p (trace w @ [TabsQuery]) (StorageGet TAB_METADATA_KEY)
      then (Inl (Rejected (StorageGet TAB_METADATA_KEY)),
            w\<lparr>trace := trace w @ [TabsQuery, StorageGet TAB_METADATA_KEY]\<rparr>)
      else if snd (initLoop p (clock p (ticks w)) (openTabs w) (storedMetadata w, False))
      then saveTabMetadata p
             (fst (initLoop p (clock p (ticks w)) (openTabs w) (storedMetadata w, False)))
             (w\<lparr>trace := trace w @ [TabsQuery, StorageGet TAB_METADATA_KEY],
                ticks := Suc (ticks w)\<rparr>)
      else (Inr (), w\<lparr>trace := trace w @ [TabsQuery, StorageGet TAB_METADATA_KEY],
                       ticks := Suc (ticks w)\<rparr>))"
  by (simp add: initialiseExistingTabs_def await_def promiseAll2_query_load dateNow_def
      ret_def split: prod.splits)

lemma not_supported_settingsTab [simp]:
  "\<not> isSupportedHttpUrl (scenarioPlatform t0 t1) (tab_url settingsTab)"
  by (simp add: isSupportedHttpUrl_def scenarioPlatform_def testPlatform_def settingsTab_def
      truthy_def orStr_def schemeOf_def)

text \<open>
  C4, as the code has it. For a tab whose URL is not a supported http/https URL:
  \<^verbatim>\<open>handleTabCreated\<close> does nothing at all; \<^verbatim>\<open>handleTabUpdated\<close> creates no record when the
  tab has none, leaves every other key alone, and in an existing record keeps
  \<open>openedAt\<close>, \<open>lastActiveAt\<close>, \<open>firstUrl\<close> and \<open>currentUrl\<close>, while the title is either kept
  or replaced by the tab's or the change's title; the \<^verbatim>\<open>onActivated\<close> listener, when
  that tab is the one \<^verbatim>\<open>chrome.tabs.get\<close> finds, creates no record, and in an existing
  record changes at most \<open>lastActiveAt\<close>, to the current reading of the clock.
\<close>

theorem unsupported_tab_handlers:
  assumes "\<not> isSupportedHttpUrl p (tab_url t)"
  shows "handleTabCreated p t w = (Inr (), w)
    \<and> (case handleTabUpdated p i ci t w of (r, w') \<Rightarrow>
         (storedMetadata w i = None \<longrightarrow> tabMetadata w' = tabMetadata w)
       \<and> (\<forall>e. storedMetadata w i = Some e \<longrightarrow>
            (\<exists>e'. storedMetadata w' i = Some e'
               \<and> openedAt e' = openedAt e \<and> lastActiveAt e' = lastActiveAt e
               \<and> firstUrl e' = firstUrl e \<and> currentUrl e' = currentUrl e
               \<and> (title e' = title e
                    \<or> title e' = orStr (tab_title t) (orStr (change_title ci) (title e)))))
       \<and> (\<forall>j. j \<noteq> i \<longrightarrow> storedMetadata w' j = storedMetadata w j))
    \<and> (find (\<lambda>x. tab_id x = i) (openTabs w) = Some t \<longrightarrow>
        (case handleTabActivated p i w of (r, w') \<Rightarrow>
           (storedMetadata w i = None \<longrightarrow> tabMetadata w' = tabMetadata w)
         \<and> (\<forall>e. storedMetadata w i = Some e \<longrightarrow>
              storedMetadata w' i = Some e
              \<or> storedMetadata w' i = Some (e\<lparr>lastActiveAt := clock p (ticks w)\<rparr>))
         \<and> (\<forall>j. j \<noteq> i \<longrightarrow> storedMetadata w' j = storedMetadata w j)))"
proof -
  have created: "handleTabCreated p t w = (Inr (), w)"
    using assms by (simp add: handleTabCreated_run)
  have updated: "case handleTabUpdated p i ci t w of (r, w') \<Rightarrow>
         (storedMetadata w i = None \<longrightarrow> tabMetadata w' = tabMetadata w)
       \<and> (\<forall>e. storedMetadata w i = Some e \<longrightarrow>
            (\<exists>e'. storedMetadata w' i = Some e'
               \<and> openedAt e' = openedAt e \<and> lastActiveAt e' = lastActiveAt e
               \<and> firstUrl e' = firstUrl e \<and> currentUrl e' = currentUrl e
               \<and> (title e' = title e
                    \<or> title e' = orStr (tab_title t) (orStr (change_title ci) (title e)))))
       \<and> (\<forall>j. j \<noteq> i \<longrightarrow> storedMetadata w' j = storedMetadata w j)"
    using assms
    by (cases "storedMetadata w i")
       (auto simp add: handleTabUpdated_run saveTabMetadata_run updateEntry_def
          storedMetadata_def Let_def)
  have activated: "find (\<lambda>x. tab_id x = i) (openTabs w) = Some t \<longrightarrow>
        (case handleTabActivated p i w of (r, w') \<Rightarrow>
           (storedMetadata w i = None \<longrightarrow> tabMetadata w' = tabMetadata w)
         \<and> (\<forall>e. storedMetadata w i = Some e \<longrightarrow>
              storedMetadata w' i = Some e
              \<or> storedMetadata w' i = Some (e\<lparr>lastActiveAt := clock p (ticks w)\<rparr>))
         \<and> (\<forall>j. j \<noteq> i \<longrightarrow> storedMetadata w' j = storedMetadata w j))"
    using assms
    by (cases "storedMetadata w i")
       (auto simp add: handleTabActivated_run saveTabMetadata_run storedMetadata_def)
  from created updated activated show ?thesis by blast
qed

text \<open>
  The tab with the record of \<open>http://x\<close> now shows \<open>chrome://settings/\<close>: the four
  fields are kept.
\<close>

theorem unsupported_tab_handlers_witness:
  "\<not> isSupportedHttpUrl (scenarioPlatform 1000 2000) (tab_url settingsTab)
   \<and> handleTabCreated (scenarioPlatform 1000 2000) settingsTab
        (createdWorld (scenarioPlatform 1000 2000))
      = (Inr (), createdWorld (scenarioPlatform 1000 2000))
   \<and> (\<exists>e'. storedMetadata
              (snd (handleTabUpdated (scenarioPlatform 1000 2000) 1 titleChange settingsTab
                      (createdWorld (scenarioPlatform 1000 2000)))) 1 = Some e'
          \<and> openedAt e' = 1000 \<and> lastActiveAt e' = 1000
          \<and> firstUrl e' = ''http://x'' \<and> currentUrl e' = ''http://x'')"
proof -
  have a: "\<not> isSupportedHttpUrl (scenarioPlatform 1000 2000) (tab_url settingsTab)"
    by simp
  have b: "storedMetadata (createdWorld (scenarioPlatform 1000 2000)) 1 = Some (recordX 1000)"
    by (simp add: createdWorld_scenario storedMetadata_def)
  from unsupported_tab_handlers [OF a, of "createdWorld (scenarioPlatform 1000 2000)" 1
      titleChange] b a
  show ?thesis
    by (auto simp add: case_prod_beta recordX_def)
qed

text \<open>
  C4 as stated fails in \<^verbatim>\<open>handleTabUpdated\<close>: for that tab, whose URL is not supported,
  the title of the existing record is overwritten with \<open>Settings\<close>.
\<close>

theorem handleTabUpdated_retitles_unsupported_counterexample:
  "\<not> isSupportedHttpUrl (scenarioPlatform 1000 2000) (tab_url settingsTab)
   \<and> storedMetadata (createdWorld (scenarioPlatform 1000 2000)) 1 = Some (recordX 1000)
   \<and> storedMetadata
        (snd (handleTabUpdated (scenarioPlatform 1000 2000) 1 titleChange settingsTab
                (createdWorld (scenarioPlatform 1000 2000)))) 1
      = Some ((recordX 1000)\<lparr>title := ''Settings''\<rparr>)"
  by (simp add: createdWorld_scenario handleTabUpdated_run saveTabMetadata_run
        storedMetadata_def updateEntry_def startWorld_def)
     (simp add: titleChange_def settingsTab_def truthy_def orStr_def scenarioPlatform_def
        testPlatform_def)

section \<open>Order of the timestamps\<close>

lemma stampStep_preserves:
  assumes m: "mono (clock p)" and o: "stampsOrdered w" and q: "stampsPast p w"
    and s: "stampStep p w w'"
  shows "stampsOrdered w' \<and> stampsPast p w'"
proof -
  from s have t: "ticks w \<le> ticks w'" by (simp add: stampStep_def)
  have btw: "stampedBetween p w w' x \<Longrightarrow> clock p (ticks w) \<le> x \<and> x \<le> clock p (ticks w')" for x
    by (auto simp add: stampedBetween_def intro!: monoD [OF m])
  have "openedAt e' \<le> lastActiveAt e' \<and> openedAt e' \<le> clock p (ticks w')"
    if e': "storedMetadata w' i = Some e'" for i e'
  proof -
    from s e' consider
        (fresh) "openedAt e' = lastActiveAt e'" "stampedBetween p w w' (openedAt e')"
      | (old) e where "storedMetadata w i = Some e" "openedAt e' = openedAt e"
          "lastActiveAt e' = lastActiveAt e \<or> stampedBetween p w w' (lastActiveAt e')"
      unfolding stampStep_def by blast
    then show ?thesis
    proof cases
      case fresh
      with btw [of "openedAt e'"] show ?thesis by simp
    next
      case (old e)
      from o q old(1) have a: "openedAt e \<le> lastActiveAt e" "openedAt e \<le> clock p (ticks w)"
        by (auto simp add: stampsOrdered_def stampsPast_def)
      from m t have b: "clock p (ticks w) \<le> clock p (ticks w')" by (rule monoD)
      from old(3) show ?thesis
      proof
        assume "lastActiveAt e' = lastActiveAt e"
        with a b old(2) show ?thesis by simp
      next
        assume "stampedBetween p w w' (lastActiveAt e')"
        from btw [OF this] a b old(2) show ?thesis by simp
      qed
    qed
  qed
  then show ?thesis by (auto simp add: stampsOrdered_def stampsPast_def)
qed

lemma stampStep_same:
  "storedMetadata w' = storedMetadata w \<Longrightarrow> ticks w \<le> ticks w' \<Longrightarrow> stampStep p w w'"
  by (auto simp add: stampStep_def)

lemma stampedBetween_now:
  "ticks w < ticks w' \<Longrightarrow> stampedBetween p w w' (clock p (ticks w))"
  by (auto simp add: stampedBetween_def)

lemma stampStep_handleTabCreated: "stampStep p w (snd (handleTabCreated p t w))"
  by (auto simp add: handleTabCreated_run stampStep_def storedMetadata_def freshRecord_def
      stampedBetween_def)

lemma stampStep_handleTabUpdated: "stampStep p w (snd (handleTabUpdated p i ci t w))"
  by (cases "storedMetadata w i")
     (auto simp add: handleTabUpdated_run saveTabMetadata_run stampStep_def storedMetadata_def
        freshRecord_def stampedBetween_def updateEntry_def Let_def)

lemma stampStep_handleTabRemoved: "stampStep p w (snd (handleTabRemoved p i w))"
  by (auto simp add: handleTabRemoved_run saveTabMetadata_run stampStep_def storedMetadata_def
      split: if_splits)

lemma stampStep_handleTabActivated: "stampStep p w (snd (handleTabActivated p i w))"
  by (cases "storedMetadata w i"; cases "find (\<lambda>t. tab_id t = i) (openTabs w)")
     (auto simp add: handleTabActivated_run saveTabMetadata_run stampStep_def storedMetadata_def
        freshRecord_def stampedBetween_def)

lemma scanEntry_cases:
  "m (tab_id t) = Some (scanEntry now m t)
   \<or> (openedAt (scanEntry now m t) = now \<and> lastActiveAt (scanEntry now m t) = now)"
  by (simp add: scanEntry_def freshRecord_def split: option.splits)

lemma scanLoop_entries:
  "scanLoop p now ts m w = (Inr m', w') \<Longrightarrow> m' i = Some e'
     \<Longrightarrow> m i = Some e' \<or> (openedAt e' = now \<and> lastActiveAt e' = now)"
proof (induction ts arbitrary: m w)
  case Nil
  then show ?case by simp
next
  case (Cons t ts)
  show ?case
  proof (cases "pinned t \<or> \<not> isSupportedHttpUrl p (tab_url t)")
    case True
    with Cons.prems have "scanLoop p now ts m w = (Inr m', w')" by (simp add: scanLoop_Cons)
    from Cons.IH [OF this Cons.prems(2)] show ?thesis .
  next
    case False
    show ?thesis
    proof (cases "now - effectiveLastActive (scanEntry now m t) now \<ge> STALE_THRESHOLD_MS")
      case True
      with Cons.prems(1) False obtain w1 where
        "scanLoop p now ts (m(tab_id t := None)) w1 = (Inr m', w')"
        by (auto simp add: scanLoop_Cons split: prod.splits sum.splits)
      from Cons.IH [OF this Cons.prems(2)] show ?thesis
        by (auto split: if_splits)
    next
      case False
      with Cons.prems(1) \<open>\<not> (pinned t \<or> \<not> isSupportedHttpUrl p (tab_url t))\<close>
      have "scanLoop p now ts (m(tab_id t \<mapsto> scanEntry now m t)) w = (Inr m', w')"
        by (simp add: scanLoop_Cons)
      from Cons.IH [OF this Cons.prems(2)] scanEntry_cases [of m t now] show ?thesis
        by (auto split: if_splits)
    qed
  qed
qed

lemma stampStep_fresh_or_old:
  assumes "ticks w < ticks w'"
    and "\<And>i e'. storedMetadata w' i = Some e' \<Longrightarrow>
           storedMetadata w i = Some e'
           \<or> (openedAt e' = clock p (ticks w) \<and> lastActiveAt e' = clock p (ticks w))"
  shows "stampStep p w w'"
  unfolding stampStep_def
proof (intro conjI allI impI)
  from assms(1) show "ticks w \<le> ticks w'" by simp
next
  fix i e'
  assume "storedMetadata w' i = Some e'"
  from assms(2) [OF this]
  show "openedAt e' = lastActiveAt e' \<and> stampedBetween p w w' (openedAt e')
      \<or> (\<exists>e. storedMetadata w i = Some e \<and> openedAt e' = openedAt e
            \<and> (lastActiveAt e' = lastActiveAt e \<or> stampedBetween p w w' (lastActiveAt e')))"
  proof
    assume "storedMetadata w i = Some e'"
    then show ?thesis by blast
  next
    assume "openedAt e' = clock p (ticks w) \<and> lastActiveAt e' = clock p (ticks w)"
    with stampedBetween_now [OF assms(1), of p] show ?thesis by simp
  qed
qed

lemma stampStep_checkForStaleTabs: "stampStep p w (snd (checkForStaleTabs p w))"
proof (cases "rejects p (trace w) TabsQuery
    \<or> rejects p (trace w @ [TabsQuery]) (StorageGet TAB_METADATA_KEY)")
  case True
  then show ?thesis
    by (auto simp add: checkForStaleTabs_run intro!: stampStep_same simp add: storedMetadata_def)
next
  case False
  define w0 where "w0 = w\<lparr>trace := trace w @ [TabsQuery, StorageGet TAB_METADATA_KEY],
                          ticks := Suc (ticks w)\<rparr>"
  obtain r1 w1 where s: "scanLoop p (clock p (ticks w)) (openTabs w) (storedMetadata w) w0 = (r1, w1)"
    by (cases "scanLoop p (clock p (ticks w)) (openTabs w) (storedMetadata w) w0")
  from scanLoop_frame [OF s] have fr: "tabMetadata w1 = tabMetadata w" "Suc (ticks w) \<le> ticks w1"
    by (simp_all add: w0_def)
  from False s have res: "checkForStaleTabs p w = await (\<lambda>v. (r1, w1)) (saveTabMetadata p) w0"
    by (simp add: checkForStaleTabs_run w0_def await_def)
  show ?thesis
  proof (cases r1)
    case (Inl err)
    with res fr show ?thesis
      by (auto simp add: await_def intro!: stampStep_same simp add: storedMetadata_def)
  next
    case (Inr m')
    show ?thesis
    proof (cases "rejects p (trace w1) (StorageSet TAB_METADATA_KEY)")
      case True
      with res Inr fr show ?thesis
        by (auto simp add: await_def saveTabMetadata_run intro!: stampStep_same
            simp add: storedMetadata_def)
    next
      case False
      with res Inr have w': "snd (checkForStaleTabs p w)
          = w1\<lparr>trace := trace w1 @ [StorageSet TAB_METADATA_KEY], tabMetadata := Some m'\<rparr>"
        by (simp add: await_def saveTabMetadata_run)
      have "m' i = Some e' \<Longrightarrow> storedMetadata w i = Some e'
              \<or> (openedAt e' = clock p (ticks w) \<and> lastActiveAt e' = clock p (ticks w))" for i e'
        using scanLoop_entries [OF s [unfolded Inr]] by blast
      with fr(2) show ?thesis
        unfolding w' stampStep_def stampedBetween_def
        by (fastforce simp add: storedMetadata_def)
    qed
  qed
qed

lemma initLoop_Cons:
  "initLoop p now (t # ts) (m, c) =
     (if isSupportedHttpUrl p (tab_url t) \<and> m (tab_id t) = None
      then initLoop p now ts (m(tab_id t \<mapsto> freshRecord now t (orStr (tab_title t) [])), True)
      else initLoop p now ts (m, c))"
  by simp

declare initLoop.simps(2) [simp del]

lemma initLoop_entries:
  "fst (initLoop p now ts (m, c)) i = Some e'
     \<Longrightarrow> m i = Some e' \<or> (openedAt e' = now \<and> lastActiveAt e' = now)"
proof (induction ts arbitrary: m c)
  case Nil
  then show ?case by simp
next
  case (Cons t ts)
  show ?case
  proof (cases "isSupportedHttpUrl p (tab_url t) \<and> m (tab_id t) = None")
    case True
    with Cons.prems
    have "fst (initLoop p now ts
                 (m(tab_id t \<mapsto> freshRecord now t (orStr (tab_title t) [])), True)) i = Some e'"
      by (simp add: initLoop_Cons)
    from Cons.IH [OF this] show ?thesis
      by (auto simp add: freshRecord_def split: if_splits)
  next
    case False
    with Cons.prems have "fst (initLoop p now ts (m, c)) i = Some e'"
      by (auto simp add: initLoop_Cons)
    from Cons.IH [OF this] show ?thesis .
  qed
qed

lemma initLoop_keeps:
  "m i = Some e \<Longrightarrow> fst (initLoop p now ts (m, c)) i = Some e"
proof (induction ts arbitrary: m c)
  case Nil
  then show ?case by simp
next
  case (Cons t ts)
  show ?case
  proof (cases "isSupportedHttpUrl p (tab_url t) \<and> m (tab_id t) = None")
    case True
    with Cons.prems have ne: "i \<noteq> tab_id t" by auto
    have "fst (initLoop p now ts
                 (m(tab_id t \<mapsto> freshRecord now t (orStr (tab_title t) [])), True)) i = Some e"
      by (rule Cons.IH) (simp add: ne Cons.prems)
    with True show ?thesis by (simp add: initLoop_Cons)
  next
    case False
    with Cons.IH [of m c, OF Cons.prems] show ?thesis by (auto simp add: initLoop_Cons)
  qed
qed

lemma initLoop_covers:
  "t \<in> set ts \<Longrightarrow> isSupportedHttpUrl p (tab_url t)
     \<Longrightarrow> fst (initLoop p now ts (m, c)) (tab_id t) \<noteq> None"
proof (induction ts arbitrary: m c)
  case Nil
  then show ?case by simp
next
  case (Cons a ts)
  show ?case
  proof (cases "t = a")
    case True
    show ?thesis
    proof (cases "m (tab_id a)")
      case None
      with True Cons.prems show ?thesis
        using initLoop_keeps [of "m(tab_id a \<mapsto> freshRecord now a (orStr (tab_title a) []))"
            "tab_id a" _ p now ts True]
        by (simp add: initLoop_Cons)
    next
      case (Some e)
      with True Cons.prems show ?thesis
        using initLoop_keeps [of m "tab_id a" e p now ts c] by (simp add: initLoop_Cons)
    qed
  next
    case False
    with Cons show ?thesis by (auto simp add: initLoop_Cons)
  qed
qed

lemma initLoop_noop:
  "\<forall>t \<in> set ts. isSupportedHttpUrl p (tab_url t) \<longrightarrow> m (tab_id t) \<noteq> None
     \<Longrightarrow> initLoop p now ts (m, c) = (m, c)"
  by (induction ts arbitrary: m c) (auto simp add: initLoop_Cons)

lemma initLoop_flag_stays: "snd (initLoop p now ts (m, True))"
  by (induction ts arbitrary: m) (auto simp add: initLoop_Cons)

lemma initLoop_unflagged:
  "\<not> snd (initLoop p now ts (m, c)) \<Longrightarrow> initLoop p now ts (m, c) = (m, c)"
  by (induction ts arbitrary: m c)
     (auto simp add: initLoop_Cons initLoop_flag_stays split: if_splits)

lemma initializer_run:
  "initializer p w =
     (case ensureAlarm p w of
        (Inl err, w') \<Rightarrow> (Inl err, w')
      | (Inr u, w') \<Rightarrow> initialiseExistingTabs p w')"
  by (simp add: initializer_def await_def)

lemma stampStep_cong:
  "storedMetadata w1 = storedMetadata w \<Longrightarrow> ticks w1 = ticks w \<Longrightarrow> stampStep p w1 w2
     \<Longrightarrow> stampStep p w w2"
  by (simp add: stampStep_def stampedBetween_def)

lemma stampStep_initialiseExistingTabs: "stampStep p w (snd (initialiseExistingTabs p w))"
proof -
  define m' where "m' = fst (initLoop p (clock p (ticks w)) (openTabs w) (storedMetadata w, False))"
  have ent: "m' i = Some e' \<Longrightarrow> storedMetadata w i = Some e'
      \<or> (openedAt e' = clock p (ticks w) \<and> lastActiveAt e' = clock p (ticks w))" for i e'
    unfolding m'_def by (rule initLoop_entries)
  define w0 where "w0 = w\<lparr>trace := trace w @ [TabsQuery, StorageGet TAB_METADATA_KEY],
                          ticks := Suc (ticks w)\<rparr>"
  show ?thesis
  proof (cases "rejects p (trace w) TabsQuery
      \<or> rejects p (trace w @ [TabsQuery]) (StorageGet TAB_METADATA_KEY)
      \<or> \<not> snd (initLoop p (clock p (ticks w)) (openTabs w) (storedMetadata w, False))
      \<or> rejects p (trace w0) (StorageSet TAB_METADATA_KEY)")
    case True
    then have "storedMetadata (snd (initialiseExistingTabs p w)) = storedMetadata w
        \<and> ticks w \<le> ticks (snd (initialiseExistingTabs p w))"
      by (auto simp add: initialiseExistingTabs_run saveTabMetadata_run storedMetadata_def
          w0_def)
    then show ?thesis by (simp add: stampStep_same)
  next
    case False
    then have saved: "snd (initialiseExistingTabs p w)
        = w0\<lparr>trace := trace w0 @ [StorageSet TAB_METADATA_KEY], tabMetadata := Some m'\<rparr>"
      by (simp add: initialiseExistingTabs_run saveTabMetadata_run m'_def w0_def)
    show ?thesis
      unfolding saved
      by (rule stampStep_fresh_or_old) (auto simp add: w0_def storedMetadata_def dest: ent)
  qed
qed

lemma ensureAlarm_frame:
  assumes "ensureAlarm p w = (r, w')"
  shows "tabMetadata w' = tabMetadata w \<and> ticks w' = ticks w \<and> openTabs w' = openTabs w
       \<and> closedItems w' = closedItems w
       \<and> inactivityThresholdHours w' = inactivityThresholdHours w
       \<and> (r = Inr () \<longrightarrow> alarm w')
       \<and> (alarm w \<longrightarrow> alarm w' \<and> trace w' = trace w @ [AlarmsGet])"
  using assms by (auto simp add: ensureAlarm_run split: if_splits)

lemma stampStep_initializer: "stampStep p w (snd (initializer p w))"
proof -
  obtain r1 w1 where e: "ensureAlarm p w = (r1, w1)" by (cases "ensureAlarm p w")
  note fr = ensureAlarm_frame [OF e]
  show ?thesis
  proof (cases r1)
    case (Inl err)
    with e fr show ?thesis
      by (auto simp add: initializer_run intro!: stampStep_same simp add: storedMetadata_def)
  next
    case (Inr u)
    with e have eq: "snd (initializer p w) = snd (initialiseExistingTabs p w1)"
      by (simp add: initializer_run)
    from fr have "storedMetadata w1 = storedMetadata w" "ticks w1 = ticks w"
      by (simp_all add: storedMetadata_def)
    from stampStep_cong [OF this stampStep_initialiseExistingTabs [of p w1]] eq
    show ?thesis by simp
  qed
qed

lemma stampStep_dispatch: "stampStep p w (dispatch p ev w)"
  by (cases ev)
     (auto simp add: dispatch_def stampStep_initializer stampStep_checkForStaleTabs
        stampStep_handleTabCreated stampStep_handleTabActivated stampStep_handleTabUpdated
        stampStep_handleTabRemoved intro!: stampStep_same simp add: storedMetadata_def)

lemma run_preserves:
  "mono (clock p) \<Longrightarrow> stampsOrdered w \<Longrightarrow> stampsPast p w
     \<Longrightarrow> stampsOrdered (run p evs w) \<and> stampsPast p (run p evs w)"
proof (induction evs arbitrary: w)
  case Nil
  then show ?case by simp
next
  case (Cons ev evs)
  from stampStep_preserves [OF Cons.prems stampStep_dispatch [of p w ev]]
  have "stampsOrdered (dispatch p ev w)" "stampsPast p (dispatch p ev w)" by simp_all
  from Cons.IH [OF Cons.prems(1) this] show ?case by simp
qed

text \<open>
  C5. Let the clock be non-decreasing, and let every stored record satisfy
  \<open>openedAt \<le> lastActiveAt\<close> and have been opened no later than the next reading of the
  clock (as is the case for the empty store). Then after every sequence of events
  (install, start-up, alarm, tab created, activated, updated, removed, and any change of
  the open tabs by the browser) every stored record satisfies
  \<open>openedAt \<le> lastActiveAt\<close>.
\<close>

theorem timestamps_ordered_invariant:
  assumes "mono (clock p)"
    and "\<forall>i e. storedMetadata w i = Some e \<longrightarrow>
           openedAt e \<le> lastActiveAt e \<and> openedAt e \<le> clock p (ticks w)"
  shows "\<forall>i e. storedMetadata (run p evs w) i = Some e \<longrightarrow> openedAt e \<le> lastActiveAt e"
proof -
  from assms(2) have "stampsOrdered w" "stampsPast p w"
    by (simp_all add: stampsOrdered_def stampsPast_def)
  from run_preserves [OF assms(1) this] show ?thesis
    by (simp add: stampsOrdered_def)
qed

text \<open>
  The tab was created at \<open>1000\<close> and is activated at \<open>5000\<close>: its record then has
  \<open>openedAt = 1000\<close> and \<open>lastActiveAt = 5000\<close>.
\<close>

theorem timestamps_ordered_invariant_witness:
  "mono (clock (scenarioPlatform 1000 5000))
   \<and> storedMetadata (createdWorld (scenarioPlatform 1000 5000)) = [1 \<mapsto> recordX 1000]
   \<and> storedMetadata (run (scenarioPlatform 1000 5000) [Activated 1]
                        (createdWorld (scenarioPlatform 1000 5000))) 1
       = Some ((recordX 1000)\<lparr>lastActiveAt := 5000\<rparr>)
   \<and> openedAt ((recordX 1000)\<lparr>lastActiveAt := 5000\<rparr>)
       \<le> lastActiveAt ((recordX 1000)\<lparr>lastActiveAt := 5000\<rparr>)"
proof -
  let ?p = "scenarioPlatform 1000 5000"
  have a: "mono (clock ?p)"
    by (auto simp add: scenarioPlatform_def testPlatform_def mono_def)
  have b: "storedMetadata (createdWorld ?p) = [1 \<mapsto> recordX 1000]"
    by (simp add: createdWorld_scenario storedMetadata_def)
  have k: "clock ?p (ticks (createdWorld ?p)) = 5000"
    by (simp add: createdWorld_scenario) (simp add: scenarioPlatform_def testPlatform_def)
  have c: "\<forall>i e. storedMetadata (createdWorld ?p) i = Some e \<longrightarrow>
           openedAt e \<le> lastActiveAt e \<and> openedAt e \<le> clock ?p (ticks (createdWorld ?p))"
    unfolding b k by (auto simp add: recordX_def split: if_splits)
  have d: "storedMetadata (run ?p [Activated 1] (createdWorld ?p)) 1
       = Some ((recordX 1000)\<lparr>lastActiveAt := 5000\<rparr>)"
    by (simp add: dispatch_def createdWorld_scenario handleTabActivated_run saveTabMetadata_run
          storedMetadata_def startWorld_def)
       (simp add: scenarioPlatform_def testPlatform_def)
  from timestamps_ordered_invariant [OF a c, of "[Activated 1]"] d
  have "openedAt ((recordX 1000)\<lparr>lastActiveAt := 5000\<rparr>)
       \<le> lastActiveAt ((recordX 1000)\<lparr>lastActiveAt := 5000\<rparr>)"
    by blast
  with a b d show ?thesis by simp
qed

section \<open>The stale scanner on reachable worlds\<close>

lemma stampStep_nonzero:
  assumes c: "\<forall>n. clock p n \<noteq> 0" and n: "stampsNonzero w" and s: "stampStep p w w'"
  shows "stampsNonzero w'"
  unfolding stampsNonzero_def
proof (intro allI impI)
  fix i e'
  assume "storedMetadata w' i = Some e'"
  with s consider
      (fresh) "openedAt e' = lastActiveAt e'" "stampedBetween p w w' (openedAt e')"
    | (old) e where "storedMetadata w i = Some e"
        "lastActiveAt e' = lastActiveAt e \<or> stampedBetween p w w' (lastActiveAt e')"
    unfolding stampStep_def by blast
  then show "lastActiveAt e' \<noteq> 0"
  proof cases
    case fresh
    with c show ?thesis by (auto simp add: stampedBetween_def)
  next
    case (old e)
    with c n show ?thesis by (auto simp add: stampedBetween_def stampsNonzero_def)
  qed
qed

lemma run_nonzero:
  "\<forall>n. clock p n \<noteq> 0 \<Longrightarrow> stampsNonzero w \<Longrightarrow> stampsNonzero (run p evs w)"
proof (induction evs arbitrary: w)
  case Nil
  then show ?case by simp
next
  case (Cons ev evs)
  from stampStep_nonzero [OF Cons.prems stampStep_dispatch [of p w ev]]
  have "stampsNonzero (dispatch p ev w)" .
  from Cons.IH [OF Cons.prems(1) this] show ?case by simp
qed

lemma staleTabs_filter:
  assumes "\<forall>i e. m i = Some e \<longrightarrow> lastActiveAt e \<noteq> 0"
  shows "staleTabs p now m ts
     = map (\<lambda>t. (t, the (m (tab_id t))))
         (filter (\<lambda>t. \<not> pinned t \<and> isSupportedHttpUrl p (tab_url t)
                    \<and> (case m (tab_id t) of None \<Rightarrow> False
                        | Some e \<Rightarrow> 86400000 \<le> now - lastActiveAt e)) ts)"
  using assms
  by (induction ts)
     (auto simp add: effectiveLastActive_def STALE_THRESHOLD_MS_def split: option.splits)

lemma items_of_known:
  "\<forall>t \<in> set ts. \<exists>e. m (tab_id t) = Some e \<Longrightarrow>
     map (\<lambda>(k, (t, e)). g e k) (enumerate n (map (\<lambda>t. (t, the (m (tab_id t)))) ts))
       = concat (map (\<lambda>(k, t). case m (tab_id t) of None \<Rightarrow> [] | Some e \<Rightarrow> [g e k])
                   (enumerate n ts))"
  by (induction ts arbitrary: n) auto

text \<open>
  C1, as the code has it. Take a world that the extension reaches from an empty metadata
  store through its own handlers, on a platform whose clock never reads 0 and that rejects
  no storage call and no \<^verbatim>\<open>chrome.tabs.query\<close>, with open tabs of distinct ids. Let \<open>now\<close>
  be the reading of the clock that the scan takes, and call stale the open tabs that are
  unpinned, have an http or https URL and a stored record with
  \<open>now - lastActiveAt \<ge> 86400000\<close>. One run of the scanner then returns without an error,
  and: its \<^verbatim>\<open>chrome.tabs.remove\<close> calls are those of the stale tabs, one each, in the order of
  the snapshot; no stale tab has a record afterwards; every stored record of any other id
  is still stored, unchanged; the queue has grown by one item per stale tab, in the same
  order, with \<open>openedAt\<close> that of the record, \<open>url\<close> the record's \<open>currentUrl\<close> or else its
  \<open>firstUrl\<close>, \<open>title\<close> the record's \<open>title\<close> or else that URL, and \<open>closedAt\<close> the reading
  of the clock that the pipeline takes for this tab: the first stale tab gets the reading
  after \<open>now\<close>, the second the one after that, and so on.
\<close>

theorem stale_tabs_closed_and_logged:
  assumes "\<forall>n. clock p n \<noteq> 0"
    and "tabMetadata w0 = None" and "w = run p evs w0"
    and "storageReliable p" and "\<forall>h. \<not> rejects p h TabsQuery"
    and "distinct (map tab_id (openTabs w))"
  shows "case checkForStaleTabs p w of (r, w') \<Rightarrow>
     (let now = clock p (ticks w);
          stale = filter (\<lambda>t. \<not> pinned t \<and> isSupportedHttpUrl p (tab_url t)
                           \<and> (case storedMetadata w (tab_id t) of None \<Rightarrow> False
                               | Some e \<Rightarrow> 86400000 \<le> now - lastActiveAt e))
                    (openTabs w)
      in r = Inr ()
       \<and> filter (\<lambda>c. \<exists>i. c = TabsRemove i) (newCalls w w')
           = map (\<lambda>t. TabsRemove (tab_id t)) stale
       \<and> distinct (map tab_id stale)
       \<and> (\<forall>t \<in> set stale. storedMetadata w' (tab_id t) = None)
       \<and> (\<forall>i e. storedMetadata w i = Some e \<and> i \<notin> tab_id ` set stale
             \<longrightarrow> storedMetadata w' i = Some e)
       \<and> length (storedItems w') = length (storedItems w) + length stale
       \<and> storedItems w' = storedItems w
            @ concat (map (\<lambda>(k, t). case storedMetadata w (tab_id t) of
                      None \<Rightarrow> []
                    | Some e \<Rightarrow>
                        [\<lparr>item_openedAt = openedAt e,
                          closedAt = clock p k,
                          item_url = (if currentUrl e \<noteq> [] then currentUrl e else firstUrl e),
                          item_title = (if title e \<noteq> [] then title e
                                        else if currentUrl e \<noteq> [] then currentUrl e
                                        else firstUrl e)\<rparr>])
                (enumerate (Suc (ticks w)) stale)))"
proof -
  define now where "now = clock p (ticks w)"
  define stale where "stale = filter (\<lambda>t. \<not> pinned t \<and> isSupportedHttpUrl p (tab_url t)
                           \<and> (case storedMetadata w (tab_id t) of None \<Rightarrow> False
                               | Some e \<Rightarrow> 86400000 \<le> now - lastActiveAt e))
                    (openTabs w)"
  from assms(2) have "stampsNonzero w0" by (simp add: stampsNonzero_def storedMetadata_def)
  from run_nonzero [OF assms(1) this, of evs] assms(3)
  have nz: "\<forall>i e. storedMetadata w i = Some e \<longrightarrow> lastActiveAt e \<noteq> 0"
    by (simp add: stampsNonzero_def)
  have st: "staleTabs p now (storedMetadata w) (openTabs w)
      = map (\<lambda>t. (t, the (storedMetadata w (tab_id t)))) stale"
    unfolding stale_def by (rule staleTabs_filter [OF nz])
  from checkForStaleTabs_reliable [OF assms(4,5,6)]
  obtain w' where r:
    "checkForStaleTabs p w = (Inr (), w')"
    "filter isTabsRemove (newCalls w w')
       = map (\<lambda>(t, e). TabsRemove (tab_id t)) (map (\<lambda>t. (t, the (storedMetadata w (tab_id t)))) stale)"
    "\<forall>(t, e) \<in> set (map (\<lambda>t. (t, the (storedMetadata w (tab_id t)))) stale).
        storedMetadata w' (tab_id t) = None"
    "\<forall>i e. storedMetadata w i = Some e
        \<longrightarrow> i \<notin> (\<lambda>(t, e). tab_id t) ` set (map (\<lambda>t. (t, the (storedMetadata w (tab_id t)))) stale)
        \<longrightarrow> storedMetadata w' i = Some e"
    "storedItems w' = storedItems w
        @ map (\<lambda>(k, (t, e)). buildClosedItem e (clock p k))
            (enumerate (Suc (ticks w)) (map (\<lambda>t. (t, the (storedMetadata w (tab_id t)))) stale))"
    unfolding now_def [symmetric] st by blast
  have isrem: "isTabsRemove = (\<lambda>c. \<exists>i. c = TabsRemove i)"
    by (auto simp add: isTabsRemove_def fun_eq_iff split: call.splits)
  from r(2) have calls: "filter (\<lambda>c. \<exists>i. c = TabsRemove i) (newCalls w w')
           = map (\<lambda>t. TabsRemove (tab_id t)) stale"
    by (simp add: isrem comp_def)
  from assms(6) have dist: "distinct (map tab_id stale)"
    unfolding stale_def by (simp add: distinct_map_filter)
  from r(3) have gone: "\<forall>t \<in> set stale. storedMetadata w' (tab_id t) = None" by simp
  have ids: "(\<lambda>(t, e). tab_id t) ` set (map (\<lambda>t. (t, the (storedMetadata w (tab_id t)))) stale)
      = tab_id ` set stale"
    by (auto simp add: image_iff)
  from r(4) have kept: "\<forall>i e. storedMetadata w i = Some e \<and> i \<notin> tab_id ` set stale
             \<longrightarrow> storedMetadata w' i = Some e"
    unfolding ids by blast
  have known: "\<forall>t \<in> set stale. \<exists>e. storedMetadata w (tab_id t) = Some e"
    unfolding stale_def by (auto split: option.splits)
  from r(5) have len: "length (storedItems w') = length (storedItems w) + length stale"
    by simp
  from r(5) have items: "storedItems w' = storedItems w
            @ concat (map (\<lambda>(k, t). case storedMetadata w (tab_id t) of
                      None \<Rightarrow> []
                    | Some e \<Rightarrow>
                        [\<lparr>item_openedAt = openedAt e,
                          closedAt = clock p k,
                          item_url = (if currentUrl e \<noteq> [] then currentUrl e else firstUrl e),
                          item_title = (if title e \<noteq> [] then title e
                                        else if currentUrl e \<noteq> [] then currentUrl e
                                        else firstUrl e)\<rparr>])
                (enumerate (Suc (ticks w)) stale))"
    unfolding items_of_known [OF known, of "\<lambda>e k. buildClosedItem e (clock p k)"]
    unfolding buildClosedItem_def .
  from r(1) calls dist gone kept len items show ?thesis
    unfolding Let_def now_def [symmetric] stale_def [symmetric] by simp
qed

text \<open>
  The tab \<^verbatim>\<open>http://x\<close> is opened when the clock shows 1000 and never refocused; the scan
  runs when it shows 86401001, 24 hours and one millisecond later. The tab is closed once,
  its record is removed, and the queue holds the one item with \<open>openedAt = 1000\<close>,
  \<open>closedAt = 86401001\<close>, the URL \<^verbatim>\<open>http://x\<close> and the title \<^verbatim>\<open>x\<close>.
\<close>

theorem stale_tabs_closed_and_logged_witness:
  "(\<forall>n. clock (scenarioPlatform 1000 86401001) n \<noteq> 0)
   \<and> tabMetadata (startWorld [tabX]) = None
   \<and> createdWorld (scenarioPlatform 1000 86401001)
        = run (scenarioPlatform 1000 86401001) [Created tabX] (startWorld [tabX])
   \<and> storageReliable (scenarioPlatform 1000 86401001)
   \<and> (\<forall>h. \<not> rejects (scenarioPlatform 1000 86401001) h TabsQuery)
   \<and> distinct (map tab_id (openTabs (createdWorld (scenarioPlatform 1000 86401001))))
   \<and> fst (checkForStaleTabs (scenarioPlatform 1000 86401001)
          (createdWorld (scenarioPlatform 1000 86401001))) = Inr ()
   \<and> filter (\<lambda>c. \<exists>i. c = TabsRemove i)
        (newCalls (createdWorld (scenarioPlatform 1000 86401001))
           (snd (checkForStaleTabs (scenarioPlatform 1000 86401001)
                  (createdWorld (scenarioPlatform 1000 86401001))))) = [TabsRemove 1]
   \<and> storedMetadata (snd (checkForStaleTabs (scenarioPlatform 1000 86401001)
                (createdWorld (scenarioPlatform 1000 86401001)))) 1 = None
   \<and> storedItems (snd (checkForStaleTabs (scenarioPlatform 1000 86401001)
                (createdWorld (scenarioPlatform 1000 86401001))))
      = [\<lparr>item_openedAt = 1000, closedAt = 86401001, item_url = ''http://x'',
          item_title = ''x''\<rparr>]"
proof -
  let ?p = "scenarioPlatform 1000 86401001"
  let ?w = "createdWorld ?p"
  have a1: "\<forall>n. clock ?p n \<noteq> 0"
    by (simp add: scenarioPlatform_def testPlatform_def)
  have a2: "tabMetadata (startWorld [tabX]) = None"
    by (simp add: startWorld_def)
  have a3: "?w = run ?p [Created tabX] (startWorld [tabX])"
    by (simp add: createdWorld_def dispatch_def)
  have a4: "storageReliable ?p" and a5: "\<forall>h. \<not> rejects ?p h TabsQuery"
    by (simp_all add: storageReliable_def scenarioPlatform_def testPlatform_def)
  have a6: "distinct (map tab_id (openTabs ?w))"
    by (simp add: createdWorld_scenario startWorld_def)
  have e: "tab_id tabX = 1" by (simp add: tabX_def)
  have m: "storedMetadata ?w 1 = Some (recordX 1000)"
    by (simp add: createdWorld_scenario startWorld_def storedMetadata_def)
  have k: "clock ?p (ticks ?w) = 86401001" "clock ?p (Suc (ticks ?w)) = 86401001"
    by (simp_all add: createdWorld_scenario startWorld_def)
       (simp_all add: scenarioPlatform_def testPlatform_def)
  have c: "filter (\<lambda>t. \<not> pinned t \<and> isSupportedHttpUrl ?p (tab_url t)
                           \<and> (case storedMetadata ?w (tab_id t) of None \<Rightarrow> False
                               | Some e \<Rightarrow> 86400000 \<le> clock ?p (ticks ?w) - lastActiveAt e))
                    (openTabs ?w) = [tabX]"
  proof -
    have "openTabs ?w = [tabX]" by (simp add: createdWorld_scenario startWorld_def)
    moreover have "\<not> pinned tabX" by (simp add: tabX_def)
    ultimately show ?thesis by (simp add: e m k recordX_def)
  qed
  have d: "storedItems ?w = []"
    by (simp add: createdWorld_scenario startWorld_def storedItems_def)
  note t = stale_tabs_closed_and_logged [OF a1 a2 a3 a4 a5 a6, unfolded Let_def c]
  from t have r: "fst (checkForStaleTabs ?p ?w) = Inr ()
     \<and> filter (\<lambda>c. \<exists>i. c = TabsRemove i) (newCalls ?w (snd (checkForStaleTabs ?p ?w)))
         = [TabsRemove 1]
     \<and> storedMetadata (snd (checkForStaleTabs ?p ?w)) 1 = None
     \<and> storedItems (snd (checkForStaleTabs ?p ?w))
        = [\<lparr>item_openedAt = 1000, closedAt = 86401001, item_url = ''http://x'',
            item_title = ''x''\<rparr>]"
    by (simp add: case_prod_beta m k d e enumerate_eq_zip recordX_def)
  from a1 a2 a3 a4 a5 a6 r show ?thesis by blast
qed

text \<open>
  The scan on \<open>busyWorld\<close>, call by call: the world after the two tabs were opened, the
  pipeline for the first tab, the pipeline for the second, the loop, the whole scan.
\<close>

lemma busyWorld_run:
  "busyWorld = \<lparr>openTabs = [tabX, tabY],
       tabMetadata = Some [1 \<mapsto> recordX 1000,
          2 \<mapsto> \<lparr>openedAt = 2000, lastActiveAt = 2000, firstUrl = ''https://y/'',
                 currentUrl = ''https://y/'', title = []\<rparr>],
       closedItems = None, inactivityThresholdHours = None, alarm = False, ticks = 2,
       trace = [StorageGet TAB_METADATA_KEY, StorageSet TAB_METADATA_KEY,
                StorageGet TAB_METADATA_KEY, StorageSet TAB_METADATA_KEY]\<rparr>"
  by (simp add: busyWorld_def dispatch_def handleTabCreated_run)
     (simp add: lossyPlatform_def startWorld_def tabX_def tabY_def recordX_def
      freshRecord_def orStr_def storedMetadata_def isSupportedHttpUrl_def truthy_def
      schemeOf_def)

lemma lossy_closeX:
  "closeAndLogTab lossyPlatform tabX (Some (recordX 1000))
     \<lparr>openTabs = [tabX, tabY], tabMetadata = M, closedItems = None,
      inactivityThresholdHours = None, alarm = False, ticks = 3,
      trace = [StorageGet TAB_METADATA_KEY, StorageSet TAB_METADATA_KEY,
               StorageGet TAB_METADATA_KEY, StorageSet TAB_METADATA_KEY,
               TabsQuery, StorageGet TAB_METADATA_KEY]\<rparr>
   = (Inr (),
      \<lparr>openTabs = [tabY], tabMetadata = M,
       closedItems = Some [\<lparr>item_openedAt = 1000, closedAt = 90000007,
                             item_url = ''http://x'', item_title = ''x''\<rparr>],
       inactivityThresholdHours = None, alarm = False, ticks = 4,
       trace = [StorageGet TAB_METADATA_KEY, StorageSet TAB_METADATA_KEY,
                StorageGet TAB_METADATA_KEY, StorageSet TAB_METADATA_KEY,
                TabsQuery, StorageGet TAB_METADATA_KEY,
                TabsRemove 1, StorageGet CLOSED_ITEMS_KEY, StorageSet CLOSED_ITEMS_KEY,
                Fetch \<lparr>item_openedAt = 1000, closedAt = 90000007,
                       item_url = ''http://x'', item_title = ''x''\<rparr>,
                SendMessage \<lparr>item_openedAt = 1000, closedAt = 90000007,
                       item_url = ''http://x'', item_title = ''x''\<rparr>]\<rparr>)"
  unfolding closeAndLogTab_run Let_def
  by (simp add: lossyPlatform_def tabX_def tabY_def recordX_def buildClosedItem_def
      storedItems_def truthy_def orStr_def)

lemma lossy_closeY:
  "closeAndLogTab lossyPlatform tabY
     (Some \<lparr>openedAt = 2000, lastActiveAt = 2000, firstUrl = ''https://y/'',
            currentUrl = ''https://y/'', title = []\<rparr>)
     \<lparr>openTabs = [tabY], tabMetadata = M,
       closedItems = Some [\<lparr>item_openedAt = 1000, closedAt = 90000007,
                             item_url = ''http://x'', item_title = ''x''\<rparr>],
       inactivityThresholdHours = None, alarm = False, ticks = 4,
       trace = [StorageGet TAB_METADATA_KEY, StorageSet TAB_METADATA_KEY,
                StorageGet TAB_METADATA_KEY, StorageSet TAB_METADATA_KEY,
                TabsQuery, StorageGet TAB_METADATA_KEY,
                TabsRemove 1, StorageGet CLOSED_ITEMS_KEY, StorageSet CLOSED_ITEMS_KEY,
                Fetch \<lparr>item_openedAt = 1000, closedAt = 90000007,
                       item_url = ''http://x'', item_title = ''x''\<rparr>,
                SendMessage \<lparr>item_openedAt = 1000, closedAt = 90000007,
                       item_url = ''http://x'', item_title = ''x''\<rparr>]\<rparr>
   = (Inl (Rejected (StorageGet CLOSED_ITEMS_KEY)),
      \<lparr>openTabs = [], tabMetadata = M,
       closedItems = Some [\<lparr>item_openedAt = 1000, closedAt = 90000007,
                             item_url = ''http://x'', item_title = ''x''\<rparr>],
       inactivityThresholdHours = None, alarm = False, ticks = 5,
       trace = [StorageGet TAB_METADATA_KEY, StorageSet TAB_METADATA_KEY,
                StorageGet TAB_METADATA_KEY, StorageSet TAB_METADATA_KEY,
                TabsQuery, StorageGet TAB_METADATA_KEY,
                TabsRemove 1, StorageGet CLOSED_ITEMS_KEY, StorageSet CLOSED_ITEMS_KEY,
                Fetch \<lparr>item_openedAt = 1000, closedAt = 90000007,
                       item_url = ''http://x'', item_title = ''x''\<rparr>,
                SendMessage \<lparr>item_openedAt = 1000, closedAt = 90000007,
                       item_url = ''http://x'', item_title = ''x''\<rparr>,
                TabsRemove 2, StorageGet CLOSED_ITEMS_KEY]\<rparr>)"
  unfolding closeAndLogTab_run Let_def
  by (simp add: lossyPlatform_def tabY_def)

lemma lossy_scan:
  "scanLoop lossyPlatform 90000000 [tabX, tabY]
     [1 \<mapsto> recordX 1000,
      2 \<mapsto> \<lparr>openedAt = 2000, lastActiveAt = 2000, firstUrl = ''https://y/'',
             currentUrl = ''https://y/'', title = []\<rparr>]
     \<lparr>openTabs = [tabX, tabY], tabMetadata = M, closedItems = None,
      inactivityThresholdHours = None, alarm = False, ticks = 3,
      trace = [StorageGet TAB_METADATA_KEY, StorageSet TAB_METADATA_KEY,
               StorageGet TAB_METADATA_KEY, StorageSet TAB_METADATA_KEY,
               TabsQuery, StorageGet TAB_METADATA_KEY]\<rparr>
   = (Inl (Rejected (StorageGet CLOSED_ITEMS_KEY)),
      \<lparr>openTabs = [], tabMetadata = M,
       closedItems = Some [\<lparr>item_openedAt = 1000, closedAt = 90000007,
                             item_url = ''http://x'', item_title = ''x''\<rparr>],
       inactivityThresholdHours = None, alarm = False, ticks = 5,
       trace = [StorageGet TAB_METADATA_KEY, StorageSet TAB_METADATA_KEY,
                StorageGet TAB_METADATA_KEY, StorageSet TAB_METADATA_KEY,
                TabsQuery, StorageGet TAB_METADATA_KEY,
                TabsRemove 1, StorageGet CLOSED_ITEMS_KEY, StorageSet CLOSED_ITEMS_KEY,
                Fetch \<lparr>item_openedAt = 1000, closedAt = 90000007,
                       item_url = ''http://x'', item_title = ''x''\<rparr>,
                SendMessage \<lparr>item_openedAt = 1000, closedAt = 90000007,
                       item_url = ''http://x'', item_title = ''x''\<rparr>,
                TabsRemove 2, StorageGet CLOSED_ITEMS_KEY]\<rparr>)"
proof -
  have s: "isSupportedHttpUrl lossyPlatform (tab_url tabX)"
      "isSupportedHttpUrl lossyPlatform (tab_url tabY)"
    by (simp_all add: isSupportedHttpUrl_def lossyPlatform_def tabX_def tabY_def truthy_def
        orStr_def schemeOf_def)
  have t: "\<not> pinned tabX" "\<not> pinned tabY" "tab_id tabX = 1" "tab_id tabY = 2"
    by (simp_all add: tabX_def tabY_def)
  have e: "effectiveLastActive (recordX 1000) 90000000 = 1000"
      "effectiveLastActive \<lparr>openedAt = 2000, lastActiveAt = 2000, firstUrl = ''https://y/'',
             currentUrl = ''https://y/'', title = []\<rparr> 90000000 = 2000"
    by (simp_all add: effectiveLastActive_def recordX_def)
  show ?thesis
    by (simp add: scanLoop_Cons s t e scanEntry_def STALE_THRESHOLD_MS_def
        lossy_closeX lossy_closeY)
qed

lemma lossy_check:
  "checkForStaleTabs lossyPlatform busyWorld
      = (Inl (Rejected (StorageGet CLOSED_ITEMS_KEY)),
         busyWorld
           \<lparr>openTabs := [],
            closedItems := Some [\<lparr>item_openedAt = 1000, closedAt = 90000007,
                                  item_url = ''http://x'', item_title = ''x''\<rparr>],
            ticks := 5,
            trace := trace busyWorld @
              [TabsQuery, StorageGet TAB_METADATA_KEY,
               TabsRemove 1, StorageGet CLOSED_ITEMS_KEY, StorageSet CLOSED_ITEMS_KEY,
               Fetch \<lparr>item_openedAt = 1000, closedAt = 90000007,
                      item_url = ''http://x'', item_title = ''x''\<rparr>,
               SendMessage \<lparr>item_openedAt = 1000, closedAt = 90000007,
                      item_url = ''http://x'', item_title = ''x''\<rparr>,
               TabsRemove 2, StorageGet CLOSED_ITEMS_KEY]\<rparr>)"
proof -
  have r: "\<And>h. \<not> rejects lossyPlatform h TabsQuery"
      "\<And>h. \<not> rejects lossyPlatform h (StorageGet TAB_METADATA_KEY)"
      "clock lossyPlatform 2 = 90000000"
    by (simp_all add: lossyPlatform_def)
  show ?thesis
    by (simp add: checkForStaleTabs_run busyWorld_run r storedMetadata_def lossy_scan await_def)
qed

text \<open>
  C1 as stated fails where the clock advances during the scan and a storage call is
  rejected. Two tabs, both open, unpinned, with an http or https URL, were opened at 1000
  and at 2000 and never refocused; the clock never reads 0. The scan reads
  \<open>now = 90000000\<close>, so both records satisfy \<open>now - lastActiveAt \<ge> 86400000\<close>. The first tab
  is closed and logged, but with \<open>closedAt = 90000007\<close>, the reading that the pipeline takes
  itself, not \<open>now\<close>. The second tab is closed, then the read of the queue is rejected:
  no item is appended for it, the rejection leaves the loop and the scan, the metadata
  store is never written, and the record of the first tab is still stored.
\<close>

theorem scan_stops_at_rejected_queue_read_counterexample:
  "busyWorld = run lossyPlatform [Created tabX, Created tabY] (startWorld [tabX, tabY])
   \<and> (\<forall>n. clock lossyPlatform n \<noteq> 0)
   \<and> openTabs busyWorld = [tabX, tabY]
   \<and> \<not> pinned tabX \<and> \<not> pinned tabY
   \<and> isSupportedHttpUrl lossyPlatform (tab_url tabX)
   \<and> isSupportedHttpUrl lossyPlatform (tab_url tabY)
   \<and> clock lossyPlatform (ticks busyWorld) = 90000000
   \<and> map (\<lambda>t. map_option lastActiveAt (storedMetadata busyWorld (tab_id t))) [tabX, tabY]
        = [Some 1000, Some 2000]
   \<and> STALE_THRESHOLD_MS = 86400000
   \<and> checkForStaleTabs lossyPlatform busyWorld
      = (Inl (Rejected (StorageGet CLOSED_ITEMS_KEY)),
         busyWorld
           \<lparr>openTabs := [],
            closedItems := Some [\<lparr>item_openedAt = 1000, closedAt = 90000007,
                                  item_url = ''http://x'', item_title = ''x''\<rparr>],
            ticks := 5,
            trace := trace busyWorld @
              [TabsQuery, StorageGet TAB_METADATA_KEY,
               TabsRemove 1, StorageGet CLOSED_ITEMS_KEY, StorageSet CLOSED_ITEMS_KEY,
               Fetch \<lparr>item_openedAt = 1000, closedAt = 90000007,
                      item_url = ''http://x'', item_title = ''x''\<rparr>,
               SendMessage \<lparr>item_openedAt = 1000, closedAt = 90000007,
                      item_url = ''http://x'', item_title = ''x''\<rparr>,
               TabsRemove 2, StorageGet CLOSED_ITEMS_KEY]\<rparr>)
   \<and> storedMetadata (snd (checkForStaleTabs lossyPlatform busyWorld)) 1 = Some (recordX 1000)"
proof -
  have s: "isSupportedHttpUrl lossyPlatform (tab_url tabX)"
      "isSupportedHttpUrl lossyPlatform (tab_url tabY)"
    by (simp_all add: isSupportedHttpUrl_def lossyPlatform_def tabX_def tabY_def truthy_def
        orStr_def schemeOf_def)
  have c: "\<forall>n. clock lossyPlatform n \<noteq> 0" by (simp add: lossyPlatform_def)
  have k: "clock lossyPlatform (ticks busyWorld) = 90000000"
    by (simp add: busyWorld_run lossyPlatform_def)
  have l: "map (\<lambda>t. map_option lastActiveAt (storedMetadata busyWorld (tab_id t))) [tabX, tabY]
        = [Some 1000, Some 2000]"
    by (simp add: busyWorld_run storedMetadata_def tabX_def tabY_def recordX_def)
  have o: "openTabs busyWorld = [tabX, tabY]" "\<not> pinned tabX" "\<not> pinned tabY"
    by (simp_all add: busyWorld_run tabX_def tabY_def)
  have m: "storedMetadata (snd (checkForStaleTabs lossyPlatform busyWorld)) 1
      = Some (recordX 1000)"
    by (simp add: lossy_check) (simp add: busyWorld_run storedMetadata_def)
  have d: "STALE_THRESHOLD_MS = 86400000" by (simp add: STALE_THRESHOLD_MS_def)
  from s c k l o m d lossy_check busyWorld_def show ?thesis by blast
qed

section \<open>The initializer\<close>

lemma initialiseExistingTabs_success:
  assumes "initialiseExistingTabs p w = (Inr (), w')"
  shows "alarm w' = alarm w \<and> openTabs w' = openTabs w
       \<and> (\<forall>t \<in> set (openTabs w). isSupportedHttpUrl p (tab_url t)
              \<longrightarrow> storedMetadata w' (tab_id t) \<noteq> None)
       \<and> (\<forall>i e. storedMetadata w i = Some e \<longrightarrow> storedMetadata w' i = Some e)"
proof (cases "snd (initLoop p (clock p (ticks w)) (openTabs w) (storedMetadata w, False))")
  case True
  with assms have st: "tabMetadata w'
      = Some (fst (initLoop p (clock p (ticks w)) (openTabs w) (storedMetadata w, False)))"
    and rest: "alarm w' = alarm w" "openTabs w' = openTabs w"
    by (auto simp add: initialiseExistingTabs_run saveTabMetadata_run split: if_splits)
  from st rest show ?thesis
    by (auto simp add: storedMetadata_def initLoop_covers initLoop_keeps)
next
  case False
  then have noop: "initLoop p (clock p (ticks w)) (openTabs w) (storedMetadata w, False)
      = (storedMetadata w, False)"
    by (rule initLoop_unflagged)
  from assms False have rest: "tabMetadata w' = tabMetadata w" "alarm w' = alarm w"
      "openTabs w' = openTabs w"
    by (auto simp add: initialiseExistingTabs_run split: if_splits)
  have "storedMetadata w (tab_id t) \<noteq> None"
    if "t \<in> set (openTabs w)" "isSupportedHttpUrl p (tab_url t)" for t
    using initLoop_covers [OF that, of "clock p (ticks w)" "storedMetadata w" False] noop
    by simp
  with rest show ?thesis by (auto simp add: storedMetadata_def)
qed

lemma initialiseExistingTabs_settled:
  assumes "\<forall>t \<in> set (openTabs w). isSupportedHttpUrl p (tab_url t)
              \<longrightarrow> storedMetadata w (tab_id t) \<noteq> None"
    and "initialiseExistingTabs p w = (r, w')"
  shows "w' = w\<lparr>trace := trace w @ [TabsQuery, StorageGet TAB_METADATA_KEY]\<rparr>
       \<or> w' = w\<lparr>trace := trace w @ [TabsQuery, StorageGet TAB_METADATA_KEY],
                 ticks := Suc (ticks w)\<rparr>"
  using assms(2) initLoop_noop [OF assms(1), of "clock p (ticks w)" False]
  by (auto simp add: initialiseExistingTabs_run split: if_splits)

text \<open>
  C6. After a run of the initializer that completed without a rejected call, a second
  run on the world it left (no event in between, the same open tabs) changes nothing:
  the alarm, the stored metadata, the queue, the threshold key and the open tabs are
  the same; it issues no \<^verbatim>\<open>chrome.alarms.create\<close> and no storage write, only the reads
  \<^verbatim>\<open>alarms.get\<close>, \<^verbatim>\<open>tabs.query\<close> and the read of the metadata. The first run leaves every
  record that existed before it as it was.
\<close>

theorem initializer_idempotent:
  assumes "initializer p w = (Inr (), w1)"
  shows "(case initializer p w1 of (r, w2) \<Rightarrow>
            alarm w2 = alarm w1 \<and> tabMetadata w2 = tabMetadata w1
            \<and> closedItems w2 = closedItems w1
            \<and> inactivityThresholdHours w2 = inactivityThresholdHours w1
            \<and> openTabs w2 = openTabs w1
            \<and> AlarmsCreate \<notin> set (newCalls w1 w2)
            \<and> (\<forall>k. StorageSet k \<notin> set (newCalls w1 w2))
            \<and> set (newCalls w1 w2) \<subseteq> {AlarmsGet, TabsQuery, StorageGet TAB_METADATA_KEY})
         \<and> (\<forall>i e. storedMetadata w i = Some e \<longrightarrow> storedMetadata w1 i = Some e)"
proof -
  obtain ra wa where ea: "ensureAlarm p w = (ra, wa)" by (cases "ensureAlarm p w")
  with assms have ra: "ra = Inr ()" and ia: "initialiseExistingTabs p wa = (Inr (), w1)"
    by (auto simp add: initializer_run split: sum.splits)
  note fa = ensureAlarm_frame [OF ea]
  note sa = initialiseExistingTabs_success [OF ia]
  from fa ra sa have al: "alarm w1" by simp
  from fa sa have cov: "\<forall>t \<in> set (openTabs w1). isSupportedHttpUrl p (tab_url t)
              \<longrightarrow> storedMetadata w1 (tab_id t) \<noteq> None"
    by simp
  from fa sa have kept: "\<forall>i e. storedMetadata w i = Some e \<longrightarrow> storedMetadata w1 i = Some e"
    by (simp add: storedMetadata_def)
  obtain rb wb where eb: "ensureAlarm p w1 = (rb, wb)" by (cases "ensureAlarm p w1")
  note fb = ensureAlarm_frame [OF eb]
  from fb al have wb: "trace wb = trace w1 @ [AlarmsGet]" "alarm wb" "alarm wb = alarm w1"
    "tabMetadata wb = tabMetadata w1" "closedItems wb = closedItems w1"
    "inactivityThresholdHours wb = inactivityThresholdHours w1" "openTabs wb = openTabs w1"
    by simp_all
  obtain r w2 where e2: "initializer p w1 = (r, w2)" by (cases "initializer p w1")
  have second: "alarm w2 = alarm w1 \<and> tabMetadata w2 = tabMetadata w1
            \<and> closedItems w2 = closedItems w1
            \<and> inactivityThresholdHours w2 = inactivityThresholdHours w1
            \<and> openTabs w2 = openTabs w1
            \<and> AlarmsCreate \<notin> set (newCalls w1 w2)
            \<and> (\<forall>k. StorageSet k \<notin> set (newCalls w1 w2))
            \<and> set (newCalls w1 w2) \<subseteq> {AlarmsGet, TabsQuery, StorageGet TAB_METADATA_KEY}"
  proof (cases rb)
    case (Inl err)
    with eb e2 have "w2 = wb" by (simp add: initializer_run)
    with wb show ?thesis by (simp add: newCalls_def)
  next
    case (Inr u)
    with eb e2 have i2: "initialiseExistingTabs p wb = (r, w2)" by (simp add: initializer_run)
    from cov wb have "\<forall>t \<in> set (openTabs wb). isSupportedHttpUrl p (tab_url t)
              \<longrightarrow> storedMetadata wb (tab_id t) \<noteq> None"
      by (simp add: storedMetadata_def)
    from initialiseExistingTabs_settled [OF this i2] wb show ?thesis
      by (auto simp add: newCalls_def)
  qed
  with e2 kept show ?thesis by simp
qed

lemma initializer_first_run:
  "initializer startupPlatform (startWorld [tabX, settingsTab]) =
     (Inr (), (startWorld [tabX, settingsTab])
        \<lparr>alarm := True, ticks := 1,
         trace := [AlarmsGet, AlarmsCreate, TabsQuery, StorageGet TAB_METADATA_KEY,
                   StorageSet TAB_METADATA_KEY],
         tabMetadata := Some [1 \<mapsto> recordX 1000]\<rparr>)"
  by (simp add: initializer_run ensureAlarm_run initialiseExistingTabs_run saveTabMetadata_run
        startupPlatform_def initLoop_Cons startWorld_def storedMetadata_def)
     (simp add: scenarioPlatform_def testPlatform_def freshRecord_def recordX_def tabX_def
        orStr_def)

text \<open>
  With one web page and one internal page open, the first run schedules the alarm and
  stores one record; the second run creates no alarm and writes nothing.
\<close>

theorem initializer_idempotent_witness:
  "fst (initializer startupPlatform (startWorld [tabX, settingsTab])) = Inr ()
   \<and> tabMetadata (snd (initializer startupPlatform
        (snd (initializer startupPlatform (startWorld [tabX, settingsTab])))))
      = Some [1 \<mapsto> recordX 1000]
   \<and> alarm (snd (initializer startupPlatform
        (snd (initializer startupPlatform (startWorld [tabX, settingsTab])))))
   \<and> AlarmsCreate \<notin> set (newCalls
        (snd (initializer startupPlatform (startWorld [tabX, settingsTab])))
        (snd (initializer startupPlatform
           (snd (initializer startupPlatform (startWorld [tabX, settingsTab]))))))
   \<and> (\<forall>k. StorageSet k \<notin> set (newCalls
        (snd (initializer startupPlatform (startWorld [tabX, settingsTab])))
        (snd (initializer startupPlatform
           (snd (initializer startupPlatform (startWorld [tabX, settingsTab])))))))"
proof -
  let ?w1 = "snd (initializer startupPlatform (startWorld [tabX, settingsTab]))"
  have a: "initializer startupPlatform (startWorld [tabX, settingsTab]) = (Inr (), ?w1)"
    by (simp add: initializer_first_run)
  have b: "tabMetadata ?w1 = Some [1 \<mapsto> recordX 1000]" "alarm ?w1"
    by (simp_all add: initializer_first_run)
  have c: "fst (initializer startupPlatform (startWorld [tabX, settingsTab])) = Inr ()"
    by (simp add: initializer_first_run)
  from initializer_idempotent [OF a, THEN conjunct1] b c show ?thesis
    by (simp add: case_prod_beta)
qed

section \<open>The markdown generator\<close>

lemma backslash_not_bracket [simp]: "\<not> isBracket backslash"
  by (simp add: isBracket_def backslash_def)

lemma replaceAll_append: "replaceAll c r (xs @ ys) = replaceAll c r xs @ replaceAll c r ys"
  by (simp add: replaceAll_def)

lemma replaceAll_Cons: "replaceAll c r (x # xs) = (if x = c then r else [x]) @ replaceAll c r xs"
  by (simp add: replaceAll_def)

lemma escape_two_passes:
  "replaceAll (CHR '']'') [backslash, CHR '']'']
     (replaceAll (CHR ''['') [backslash, CHR ''[''] s) = concat (map escapeChar s)"
proof (induction s)
  case Nil
  show ?case by (simp add: replaceAll_def)
next
  case (Cons c s)
  have "replaceAll (CHR '']'') [backslash, CHR '']'']
          (if c = CHR ''['' then [backslash, CHR ''[''] else [c]) = escapeChar c"
    by (simp add: replaceAll_def escapeChar_def isBracket_def backslash_def)
  with Cons show ?case
    by (simp add: replaceAll_Cons [of "CHR ''[''"] replaceAll_append)
qed

lemma escapeMarkdownLinkText_Some:
  "escapeMarkdownLinkText (Some s) = concat (map escapeChar s)"
proof -
  have "orStr (Some s) [] = s" by (simp add: orStr_def)
  then show ?thesis by (simp add: escapeMarkdownLinkText_def escape_two_passes)
qed

lemma escaped_head:
  "concat (map escapeChar s) = c # rest \<Longrightarrow> \<not> isBracket c"
  by (cases s) (auto simp add: escapeChar_def split: if_splits)

lemma unescape_plain:
  "\<not> (c = backslash \<and> (\<exists>d ds. rest = d # ds \<and> isBracket d))
     \<Longrightarrow> unescapeLinkText (c # rest) = c # unescapeLinkText rest"
  by (cases rest) auto

lemma unescape_escaped: "unescapeLinkText (concat (map escapeChar s)) = s"
proof (induction s)
  case Nil
  show ?case by simp
next
  case (Cons c s)
  show ?case
  proof (cases "isBracket c")
    case True
    with Cons show ?thesis by (simp add: escapeChar_def)
  next
    case False
    have "\<not> (c = backslash \<and> (\<exists>d ds. concat (map escapeChar s) = d # ds \<and> isBracket d))"
      using escaped_head by blast
    from unescape_plain [OF this] Cons
    have "unescapeLinkText (c # concat (map escapeChar s)) = c # s" by simp
    moreover from False have "concat (map escapeChar (c # s)) = c # concat (map escapeChar s)"
      by (simp add: escapeChar_def)
    ultimately show ?thesis by simp
  qed
qed

text \<open>
  The escaping loses nothing: reading the escaped text from the left and dropping the
  backslash in front of a bracket gives the title back.
\<close>

lemma escapeMarkdownLinkText_recoverable:
  "unescapeLinkText (escapeMarkdownLinkText (Some s)) = s"
  by (simp add: escapeMarkdownLinkText_Some unescape_escaped)

text \<open>
  An item closed later than the last valid date stops the generator with the exception of
  \<^verbatim>\<open>toISOString()\<close>, whatever the renderings are.
\<close>

lemma buildMarkdownFromItems_invalid_date:
  "buildMarkdownFromItems toISOString toTimeString clk
     [draftItem\<lparr>closedAt := 8640000000000001\<rparr>] = Inl RangeError"
  by (simp add: buildMarkdownFromItems_def draftItem_def formatDateISO_def validDate_def)

text \<open>
  C9 on the code, at \<open>draftItem\<close>: a title with two brackets that ends in a backslash, of
  a tab with the URL \<^verbatim>\<open>https://example.org/a\<close> closed two seconds after the epoch. The
  generator puts a backslash in front of each of the two brackets and leaves the backslash
  at the end of the title as it is. The link text that it emits therefore ends in a
  backslash, and in the line of the item the bracket that is meant to close the link text
  has a backslash in front of it, exactly as the escaped brackets of the title have.
\<close>

theorem buildMarkdownFromItems_trailing_backslash:
  "CHR ''['' \<in> set (item_title draftItem) \<and> CHR '']'' \<in> set (item_title draftItem)
   \<and> escapeMarkdownLinkText (Some (item_title draftItem))
       = [backslash] @ ''[draft'' @ [backslash] @ ''] C:'' @ [backslash]
   \<and> buildMarkdownFromItems (\<lambda>ms. ''1970-01-01T00:00:02.000Z'')
        (\<lambda>ms. ''00:00:02 GMT+0000 (Coordinated Universal Time)'') (\<lambda>n. 0) [draftItem]
     = Inr (''## 1970-01-01'' @ [CHR 0x0A, CHR 0x0A]
            @ ''- [ ] ['' @ [backslash] @ ''[draft'' @ [backslash] @ ''] C:'' @ [backslash]
            @ ''](https://example.org/a)  '' @ [CHR 0x0A]
            @ ''  Closed at: 00:00'' @ [CHR 0x0A])"
  by (simp add: buildMarkdownFromItems_def draftItem_def formatDateISO_def formatTime_def
      validDate_def itemLine_def itemTitle_def escapeMarkdownLinkText_def replaceAll_def
      orStr_def backslash_def Let_def)

end
